theory Spec2Isabelle
  imports Main "HOL-Library.Log_Nat" "HOL-Library.AList" "HOL-Library.Sublist" "HOL-Library.Word"
begin

section \<open>Go primitives used by the pipeline\<close>

subsection \<open>float64 arithmetic\<close>

text \<open>
  A Go \<^verbatim>\<open>float64\<close> is an IEEE-754 binary64 value. The finite values are carried as the
  exact rational they denote, next to the two infinities and NaN. The two zeros are
  identified: Go's \<^verbatim>\<open>==\<close> does not tell them apart, and the functions below never divide by
  a zero, the only operation whose result depends on the sign of a zero.

  Every arithmetic operation computes the exact rational result and rounds it to the
  nearest binary64 value, ties to even (\<open>f64_round\<close>): a result of magnitude
  \<open>2^1024 - 2^970\<close> or more (half an ulp above the largest finite value) overflows to an
  infinity, a result in the binade \<open>[2^e, 2^(e+1))\<close> is rounded to a multiple of
  \<open>2^(e-52)\<close>, and below \<open>2^(-1022)\<close> the spacing stays \<open>2^(-1074)\<close> (subnormals).
\<close>

datatype float64 = Fin rat | PInf | NInf | NaN

definition ilog2 :: "rat \<Rightarrow> int" where
  \<comment> \<open>\<open>\<lfloor>log\<^sub>2 \<bar>x\<bar>\<rfloor>\<close> for \<open>x \<noteq> 0\<close>, from the bit lengths of numerator and denominator\<close>
  "ilog2 x = (case quotient_of \<bar>x\<bar> of (p, q) \<Rightarrow>
     (let e = bitlen p - bitlen q in if 2 powi e \<le> \<bar>x\<bar> then e else e - 1))"

definition round_even :: "rat \<Rightarrow> int" where
  "round_even x = (let f = \<lfloor>x\<rfloor>; r = x - of_int f in
     if r < 1 / 2 then f else if 1 / 2 < r then f + 1 else if even f then f else f + 1)"

definition f64_round :: "rat \<Rightarrow> float64" where
  "f64_round x =
     (if x = 0 then Fin 0
      else if 2 ^ 1024 - 2 ^ 970 \<le> \<bar>x\<bar> then (if 0 < x then PInf else NInf)
      else (let e = max (ilog2 x) (- 1022); ulp = 2 powi (e - 52)
            in Fin (of_int (round_even (x / ulp)) * ulp)))"

fun f64_add :: "float64 \<Rightarrow> float64 \<Rightarrow> float64" where
  "f64_add NaN _ = NaN"
| "f64_add _ NaN = NaN"
| "f64_add (Fin a) (Fin b) = f64_round (a + b)"
| "f64_add PInf NInf = NaN"
| "f64_add NInf PInf = NaN"
| "f64_add PInf _ = PInf"
| "f64_add NInf _ = NInf"
| "f64_add (Fin a) PInf = PInf"
| "f64_add (Fin a) NInf = NInf"

fun f64_mul :: "float64 \<Rightarrow> float64 \<Rightarrow> float64" where
  "f64_mul NaN _ = NaN"
| "f64_mul _ NaN = NaN"
| "f64_mul (Fin a) (Fin b) = f64_round (a * b)"
| "f64_mul (Fin a) PInf = (if a = 0 then NaN else if 0 < a then PInf else NInf)"
| "f64_mul (Fin a) NInf = (if a = 0 then NaN else if 0 < a then NInf else PInf)"
| "f64_mul PInf (Fin b) = (if b = 0 then NaN else if 0 < b then PInf else NInf)"
| "f64_mul NInf (Fin b) = (if b = 0 then NaN else if 0 < b then NInf else PInf)"
| "f64_mul PInf PInf = PInf"
| "f64_mul PInf NInf = NInf"
| "f64_mul NInf PInf = NInf"
| "f64_mul NInf NInf = PInf"

text \<open>
  Division of a non-zero finite value by a zero gives an infinity whose sign is the
  product of the signs; with the zeros identified, the divisor is read as \<open>+0\<close>. No
  function below reaches that case: each division is guarded by a test of the divisor.
\<close>

fun f64_div :: "float64 \<Rightarrow> float64 \<Rightarrow> float64" where
  "f64_div NaN _ = NaN"
| "f64_div _ NaN = NaN"
| "f64_div (Fin a) (Fin b) =
     (if b = 0 then (if a = 0 then NaN else if 0 < a then PInf else NInf)
      else f64_round (a / b))"
| "f64_div (Fin a) PInf = Fin 0"
| "f64_div (Fin a) NInf = Fin 0"
| "f64_div PInf (Fin b) = (if 0 \<le> b then PInf else NInf)"
| "f64_div NInf (Fin b) = (if 0 \<le> b then NInf else PInf)"
| "f64_div PInf PInf = NaN"
| "f64_div PInf NInf = NaN"
| "f64_div NInf PInf = NaN"
| "f64_div NInf NInf = NaN"

fun f64_less :: "float64 \<Rightarrow> float64 \<Rightarrow> bool" where
  "f64_less NaN _ = False"
| "f64_less _ NaN = False"
| "f64_less (Fin a) (Fin b) = (a < b)"
| "f64_less NInf NInf = False"
| "f64_less NInf _ = True"
| "f64_less _ NInf = False"
| "f64_less PInf _ = False"
| "f64_less (Fin a) PInf = True"

definition f64_of_int :: "int \<Rightarrow> float64" where
  \<comment> \<open>the conversion \<^verbatim>\<open>float64(n)\<close>\<close>
  "f64_of_int n = f64_round (of_int n)"

fun IsNaN :: "float64 \<Rightarrow> bool" where
  "IsNaN NaN = True"
| "IsNaN _ = False"

fun IsInf :: "float64 \<Rightarrow> int \<Rightarrow> bool" where
  \<comment> \<open>\<^verbatim>\<open>math.IsInf(f, sign)\<close>: \<open>sign > 0\<close> asks for \<open>+Inf\<close>, \<open>sign < 0\<close> for \<open>-Inf\<close>,
      \<open>sign = 0\<close> for either\<close>
  "IsInf PInf sign = (0 \<le> sign)"
| "IsInf NInf sign = (sign \<le> 0)"
| "IsInf _ sign = False"

fun Round :: "float64 \<Rightarrow> float64" where
  \<comment> \<open>\<^verbatim>\<open>math.Round\<close>: nearest integer, halves away from zero; infinities and NaN are
      returned as they are. The nearest integer of a binary64 value is a binary64 value.\<close>
  "Round (Fin x) = Fin (of_int (if x < 0 then - \<lfloor>- x + 1 / 2\<rfloor> else \<lfloor>x + 1 / 2\<rfloor>))"
| "Round PInf = PInf"
| "Round NInf = NInf"
| "Round NaN = NaN"


subsection \<open>Strings\<close>

text \<open>
  A Go string is a sequence of bytes, here a \<^typ>\<open>string\<close>. \<^verbatim>\<open>strings.TrimSpace\<close> removes the
  white space of Unicode from both ends; it reads the bytes as UTF-8, so a white-space
  character is one of the byte sequences below: the six ASCII ones, then U+0085, U+00A0,
  U+1680, U+2000 to U+200A, U+2028, U+2029, U+202F, U+205F and U+3000. Each of them starts
  with a leading byte and goes on with continuation bytes, hence decoding forwards from the
  start and backwards from the end of a string finds exactly these prefixes and suffixes.
\<close>

definition space_encodings :: "string list" where
  "space_encodings =
     [[CHR 0x09], [CHR 0x0A], [CHR 0x0B], [CHR 0x0C], [CHR 0x0D], [CHR 0x20],
      [CHR 0xC2, CHR 0x85], [CHR 0xC2, CHR 0xA0],
      [CHR 0xE1, CHR 0x9A, CHR 0x80],
      [CHR 0xE2, CHR 0x80, CHR 0x80], [CHR 0xE2, CHR 0x80, CHR 0x81],
      [CHR 0xE2, CHR 0x80, CHR 0x82], [CHR 0xE2, CHR 0x80, CHR 0x83],
      [CHR 0xE2, CHR 0x80, CHR 0x84], [CHR 0xE2, CHR 0x80, CHR 0x85],
      [CHR 0xE2, CHR 0x80, CHR 0x86], [CHR 0xE2, CHR 0x80, CHR 0x87],
      [CHR 0xE2, CHR 0x80, CHR 0x88], [CHR 0xE2, CHR 0x80, CHR 0x89],
      [CHR 0xE2, CHR 0x80, CHR 0x8A],
      [CHR 0xE2, CHR 0x80, CHR 0xA8], [CHR 0xE2, CHR 0x80, CHR 0xA9],
      [CHR 0xE2, CHR 0x80, CHR 0xAF], [CHR 0xE2, CHR 0x81, CHR 0x9F],
      [CHR 0xE3, CHR 0x80, CHR 0x80]]"

definition leading_space :: "string \<Rightarrow> nat" where
  \<comment> \<open>the width in bytes of the white-space character a string starts with, or 0\<close>
  "leading_space s =
     (case find (\<lambda>w. prefix w s) space_encodings of None \<Rightarrow> 0 | Some w \<Rightarrow> length w)"

definition trailing_space :: "string \<Rightarrow> nat" where
  "trailing_space s =
     (case find (\<lambda>w. suffix w s) space_encodings of None \<Rightarrow> 0 | Some w \<Rightarrow> length w)"

function TrimLeft :: "string \<Rightarrow> string" where
  "TrimLeft s = (if leading_space s = 0 then s else TrimLeft (drop (leading_space s) s))"
  by pat_completeness auto
termination
proof (relation "measure length")
  fix s :: string
  assume "leading_space s \<noteq> 0"
  moreover have "leading_space [] = 0"
    by (simp add: leading_space_def space_encodings_def)
  ultimately have "s \<noteq> []" by auto
  with \<open>leading_space s \<noteq> 0\<close> show "(drop (leading_space s) s, s) \<in> measure length"
    by simp
qed simp

function TrimRight :: "string \<Rightarrow> string" where
  "TrimRight s =
     (if trailing_space s = 0 then s else TrimRight (take (length s - trailing_space s) s))"
  by pat_completeness auto
termination
proof (relation "measure length")
  fix s :: string
  assume "trailing_space s \<noteq> 0"
  moreover have "trailing_space [] = 0"
    by (simp add: trailing_space_def space_encodings_def)
  ultimately have "s \<noteq> []" by auto
  with \<open>trailing_space s \<noteq> 0\<close>
  show "(take (length s - trailing_space s) s, s) \<in> measure length"
    by simp
qed simp

definition TrimSpace :: "string \<Rightarrow> string" where
  "TrimSpace s = TrimRight (TrimLeft s)"

text \<open>
  The decimal digits of a number that is not negative, as \<^verbatim>\<open>%d\<close> of \<^verbatim>\<open>fmt.Sprintf\<close> prints them.
\<close>

function digits :: "int \<Rightarrow> string" where
  "digits n =
     (if n < 10 then [''0123456789'' ! nat n]
      else digits (n div 10) @ [''0123456789'' ! nat (n mod 10)])"
  by pat_completeness auto
termination
  by (relation "measure nat") auto

definition show_int :: "int \<Rightarrow> string" where
  "show_int i = (if i < 0 then CHR ''-'' # digits (- i) else digits i)"

subsection \<open>Machine integers\<close>

text \<open>
  Go's \<^verbatim>\<open>int\<close> is a 64-bit two's-complement integer here. Values are carried as \<^typ>\<open>int\<close>,
  and a sum that can leave the range is wrapped into it.
\<close>

definition wrap64 :: "int \<Rightarrow> int" where
  "wrap64 i = sint (word_of_int i :: 64 word)"

subsection \<open>Time\<close>

text \<open>
  A \<^verbatim>\<open>time.Time\<close> is carried as its civil date in UTC and the nanoseconds since midnight:
  every time of the pipeline is parsed from a layout without a zone, or is the zero time
  \<^verbatim>\<open>time.Time{}\<close>, January 1 of year 1. \<^verbatim>\<open>Format("2006-01-02")\<close> prints year, month and day
  with \<^verbatim>\<open>appendInt\<close>: a sign if negative, then the digits padded with zeros to the width.

  \<^verbatim>\<open>time.Parse\<close> belongs to the standard library and is a parameter of the functions
  that call it: a function from a layout and a text to a time, or \<open>None\<close> for an error.
\<close>

record Time =
  year :: int
  month :: int
  day :: int
  nanos :: int

type_synonym parser = "string \<Rightarrow> string \<Rightarrow> Time option"

definition zero_time :: Time where
  "zero_time = \<lparr>year = 1, month = 1, day = 1, nanos = 0\<rparr>"

definition appendInt :: "int \<Rightarrow> nat \<Rightarrow> string" where
  "appendInt x width =
     (let ds = digits \<bar>x\<bar>
      in (if x < 0 then ''-'' else '''') @ replicate (width - length ds) CHR ''0'' @ ds)"

definition Format_date :: "Time \<Rightarrow> string" where
  \<comment> \<open>\<^verbatim>\<open>t.Format("2006-01-02")\<close>\<close>
  "Format_date t =
     appendInt (year t) 4 @ ''-'' @ appendInt (month t) 2 @ ''-'' @ appendInt (day t) 2"

section \<open>Data model\<close>

text \<open>
  The \<^verbatim>\<open>original_value\<close> of a field verdict is an \<^verbatim>\<open>interface{}\<close>; the validators store a
  string, an \<^verbatim>\<open>int\<close>, a \<^verbatim>\<open>float64\<close> or a \<^verbatim>\<open>*string\<close> (\<open>None\<close> is the nil pointer) in it.
\<close>

datatype raw_value = VString string | VInt int | VFloat float64 | VStringPtr "string option"

record FieldQuality =
  IsValid :: bool
  Description :: string
  OriginalValue :: raw_value

text \<open>
  \<^verbatim>\<open>FieldErrors\<close> is a Go map, that is a reference to a table that every copy of the
  \<^verbatim>\<open>RecordQuality\<close> struct shares. The struct holds the address, the tables live in a heap.
  A table is an association list with one entry for each key; Go does not fix the order
  in which a map is traversed, and no result below depends on the order of the entries.
\<close>

type_synonym addr = nat

record RecordQuality =
  RecordID :: string
  IsValid :: bool
  FieldErrors :: addr
  ErrorCount :: int

record heap =
  tables :: "addr \<Rightarrow> (string \<times> FieldQuality) list"
  next_addr :: addr

definition make_map :: "heap \<Rightarrow> addr \<times> heap" where
  \<comment> \<open>\<^verbatim>\<open>make(map[string]models.FieldQuality)\<close>: a fresh, empty table\<close>
  "make_map h =
     (next_addr h, h\<lparr>tables := (tables h)(next_addr h := []), next_addr := Suc (next_addr h)\<rparr>)"

definition map_assign :: "addr \<Rightarrow> string \<Rightarrow> FieldQuality \<Rightarrow> heap \<Rightarrow> heap" where
  \<comment> \<open>\<^verbatim>\<open>m[key] = value\<close>\<close>
  "map_assign a key v h = h\<lparr>tables := (tables h)(a := AList.update key v (tables h a))\<rparr>"

record AdsRecord =
  Date :: string
  CampaignID :: string
  Channel :: string
  Clicks :: int
  Impressions :: int
  Cost :: float64
  UTMCampaign :: string
  UTMSource :: "string option"
  UTMMedium :: "string option"

record CRMRecord =
  OpportunityID :: string
  ContactEmail :: string
  Stage :: string
  Amount :: float64
  CreatedAt :: string
  UTMCampaign :: string
  UTMSource :: "string option"
  UTMMedium :: "string option"

record NormalizedAdsRecord =
  Date :: Time
  CampaignID :: string
  Channel :: string
  Clicks :: int
  Impressions :: int
  Cost :: float64
  UTMCampaign :: string
  UTMSource :: string
  UTMMedium :: string
  UTMKey :: string
  Quality :: RecordQuality

record NormalizedCRMRecord =
  OpportunityID :: string
  ContactEmail :: string
  Stage :: string
  Amount :: float64
  CreatedAt :: Time
  UTMCampaign :: string
  UTMSource :: string
  UTMMedium :: string
  UTMKey :: string
  Quality :: RecordQuality

record ChannelMetrics =
  Channel :: string
  Date :: string
  Clicks :: int
  Impressions :: int
  Cost :: float64
  Leads :: int
  Opportunities :: int
  ClosedWon :: int
  Revenue :: float64
  CPC :: float64
  CPA :: float64
  CVRLeadToOpp :: float64
  CVROppToWon :: float64
  ROAS :: float64
  QualityScore :: float64
  TotalRecords :: int
  ValidRecords :: int

record QualitySummary =
  TotalAdsRecords :: int
  ValidAdsRecords :: int
  AdsQualityScore :: float64
  TotalCRMRecords :: int
  ValidCRMRecords :: int
  CRMQualityScore :: float64
  OverallQualityScore :: float64
  CommonIssues :: "string list"

record DataQualityReport =
  Summary :: QualitySummary
  AdsReport :: "RecordQuality list"
  CRMReport :: "RecordQuality list"
  Timestamp :: string

section \<open>Transformer\<close>

text \<open>
  The transformer holds the compiled e-mail pattern
  \<^verbatim>\<open>^[a-zA-Z0-9._%+-]+@[a-zA-Z0-9.-]+\.[a-zA-Z]{2,}$\<close>. The local part has no \<^verbatim>\<open>@\<close> and the
  last group no dot, so a text matches when the characters before its first \<^verbatim>\<open>@\<close> are a
  non-empty local part and what follows splits at its last dot into a non-empty domain and
  at least two letters.
\<close>

record Transformer =
  emailRegex :: "string \<Rightarrow> bool"

definition is_letter :: "char \<Rightarrow> bool" where
  "is_letter c = (let n = (of_char c :: nat) in (97 \<le> n \<and> n \<le> 122) \<or> (65 \<le> n \<and> n \<le> 90))"

definition is_digit :: "char \<Rightarrow> bool" where
  "is_digit c = (let n = (of_char c :: nat) in 48 \<le> n \<and> n \<le> 57)"

definition local_char :: "char \<Rightarrow> bool" where
  "local_char c = (is_letter c \<or> is_digit c \<or> c \<in> set ''._%+-'')"

definition domain_char :: "char \<Rightarrow> bool" where
  "domain_char c = (is_letter c \<or> is_digit c \<or> c \<in> set ''.-'')"

definition email_pattern :: "string \<Rightarrow> bool" where
  "email_pattern s =
     (let local_part = takeWhile local_char s; rest = dropWhile local_char s in
      local_part \<noteq> [] \<and>
      (case rest of
         [] \<Rightarrow> False
       | c # after_at \<Rightarrow>
           c = CHR ''@'' \<and>
           (let tld = rev (takeWhile (\<lambda>c. c \<noteq> CHR ''.'') (rev after_at));
                before = dropWhile (\<lambda>c. c \<noteq> CHR ''.'') (rev after_at) in
            (case before of
               [] \<Rightarrow> False
             | dot # rev_domain \<Rightarrow>
                 rev_domain \<noteq> [] \<and> list_all domain_char rev_domain \<and>
                 2 \<le> length tld \<and> list_all is_letter tld))))"

definition New :: Transformer where
  "New = \<lparr>emailRegex = email_pattern\<rparr>"

subsection \<open>Field validators\<close>

text \<open>
  A validator receives a pointer to the quality record of the row it works on. It stores
  one verdict under the field's name in the table of the record, and adds one to
  \<^verbatim>\<open>ErrorCount\<close> when the verdict is a failure. These two blocks of statements recur in
  every validator; \<open>field_error\<close> and \<open>field_ok\<close> stand for them. The model of a validator
  returns the value together with the quality record and the heap it leaves.
\<close>

definition field_error ::
  "string \<Rightarrow> string \<Rightarrow> raw_value \<Rightarrow> RecordQuality \<Rightarrow> heap \<Rightarrow> RecordQuality \<times> heap" where
  "field_error fieldName description original quality h =
     (quality\<lparr>ErrorCount := ErrorCount quality + 1\<rparr>,
      map_assign (FieldErrors quality) fieldName
        \<lparr>FieldQuality.IsValid = False, Description = description, OriginalValue = original\<rparr> h)"

definition field_ok ::
  "string \<Rightarrow> string \<Rightarrow> raw_value \<Rightarrow> RecordQuality \<Rightarrow> heap \<Rightarrow> RecordQuality \<times> heap" where
  "field_ok fieldName description original quality h =
     (quality,
      map_assign (FieldErrors quality) fieldName
        \<lparr>FieldQuality.IsValid = True, Description = description, OriginalValue = original\<rparr> h)"

fun parse_first :: "parser \<Rightarrow> string list \<Rightarrow> string \<Rightarrow> Time option" where
  \<comment> \<open>the loop over the accepted layouts: the first one that parses wins\<close>
  "parse_first parse [] s = None"
| "parse_first parse (format # formats) s =
     (case parse format s of Some t \<Rightarrow> Some t | None \<Rightarrow> parse_first parse formats s)"

definition validateAndParseDate ::
  "parser \<Rightarrow> string \<Rightarrow> string \<Rightarrow> RecordQuality \<Rightarrow> heap \<Rightarrow> Time \<times> RecordQuality \<times> heap" where
  "validateAndParseDate parse dateStr fieldName quality h =
     (if TrimSpace dateStr = [] then
        (zero_time,
         field_error fieldName ''Missing - Date field is empty'' (VString dateStr) quality h)
      else (case parse_first parse [''2006-01-02'', ''2006/01/02''] dateStr of
          Some date \<Rightarrow> (date, field_ok fieldName ''Valid date'' (VString dateStr) quality h)
        | None \<Rightarrow>
            (zero_time,
             field_error fieldName ''Invalid date format - Expected YYYY-MM-DD or YYYY/MM/DD''
               (VString dateStr) quality h)))"

definition validateCampaignID ::
  "string \<Rightarrow> string \<Rightarrow> RecordQuality \<Rightarrow> heap \<Rightarrow> string \<times> RecordQuality \<times> heap" where
  "validateCampaignID ident fieldName quality h =
     (if TrimSpace ident = [] then
        (''unknown'',
         field_error fieldName (''Missing - Campaign ID is empty, using 'unknown'' @ [CHR 0x27])
           (VString ident) quality h)
      else (ident, field_ok fieldName ''Valid campaign ID'' (VString ident) quality h))"

definition validateChannel ::
  "string \<Rightarrow> string \<Rightarrow> RecordQuality \<Rightarrow> heap \<Rightarrow> string \<times> RecordQuality \<times> heap" where
  "validateChannel channel fieldName quality h =
     (if TrimSpace channel = [] then
        (''unknown'',
         field_error fieldName ''Missing - Channel is empty'' (VString channel) quality h)
      else if channel \<in> set [''google_ads'', ''facebook_ads'', ''tiktok_ads'', ''linkedin_ads'',
                              ''twitter_ads''] then
        (channel, field_ok fieldName ''Valid channel'' (VString channel) quality h)
      else
        (channel,
         field_error fieldName (''Unknown channel type: '' @ channel) (VString channel)
           quality h))"

definition validateClicks ::
  "int \<Rightarrow> string \<Rightarrow> RecordQuality \<Rightarrow> heap \<Rightarrow> int \<times> RecordQuality \<times> heap" where
  "validateClicks clicks fieldName quality h =
     (if clicks < 0 then
        (0,
         field_error fieldName ''Invalid - Clicks cannot be negative, setting to 0''
           (VInt clicks) quality h)
      else (clicks, field_ok fieldName ''Valid clicks count'' (VInt clicks) quality h))"

definition validateImpressions ::
  "int \<Rightarrow> string \<Rightarrow> RecordQuality \<Rightarrow> heap \<Rightarrow> int \<times> RecordQuality \<times> heap" where
  "validateImpressions impressions fieldName quality h =
     (if impressions < 0 then
        (0,
         field_error fieldName ''Invalid - Impressions cannot be negative, setting to 0''
           (VInt impressions) quality h)
      else
        (impressions,
         field_ok fieldName ''Valid impressions count'' (VInt impressions) quality h))"

definition validateCost ::
  "float64 \<Rightarrow> string \<Rightarrow> RecordQuality \<Rightarrow> heap \<Rightarrow> float64 \<times> RecordQuality \<times> heap" where
  "validateCost cost fieldName quality h =
     (if f64_less cost (Fin 0) then
        (Fin 0,
         field_error fieldName ''Invalid - Cost cannot be negative, setting to 0''
           (VFloat cost) quality h)
      else (cost, field_ok fieldName ''Valid cost amount'' (VFloat cost) quality h))"

definition validateOpportunityID ::
  "string \<Rightarrow> string \<Rightarrow> RecordQuality \<Rightarrow> heap \<Rightarrow> string \<times> RecordQuality \<times> heap" where
  "validateOpportunityID ident fieldName quality h =
     (if TrimSpace ident = [] then
        (''unknown'',
         field_error fieldName ''Missing - Opportunity ID is empty'' (VString ident) quality h)
      else (ident, field_ok fieldName ''Valid opportunity ID'' (VString ident) quality h))"

definition validateEmail ::
  "Transformer \<Rightarrow> string \<Rightarrow> string \<Rightarrow> RecordQuality \<Rightarrow> heap
     \<Rightarrow> string \<times> RecordQuality \<times> heap" where
  "validateEmail t email fieldName quality h =
     (if TrimSpace email = [] then
        (email, field_error fieldName ''Missing - Email is empty'' (VString email) quality h)
      else if \<not> emailRegex t email then
        (email, field_error fieldName ''Invalid email format'' (VString email) quality h)
      else (email, field_ok fieldName ''Valid email'' (VString email) quality h))"

definition validateStage ::
  "string \<Rightarrow> string \<Rightarrow> RecordQuality \<Rightarrow> heap \<Rightarrow> string \<times> RecordQuality \<times> heap" where
  "validateStage stage fieldName quality h =
     (if TrimSpace stage = [] then
        (''unknown'',
         field_error fieldName ''Missing - Stage is empty'' (VString stage) quality h)
      else if stage \<in> set [''lead'', ''opportunity'', ''closed_won'', ''closed_lost''] then
        (stage, field_ok fieldName ''Valid stage'' (VString stage) quality h)
      else
        (stage,
         field_error fieldName (''Unknown stage: '' @ stage) (VString stage) quality h))"

definition validateAmount ::
  "float64 \<Rightarrow> string \<Rightarrow> RecordQuality \<Rightarrow> heap \<Rightarrow> float64 \<times> RecordQuality \<times> heap" where
  "validateAmount amount fieldName quality h =
     (if f64_less amount (Fin 0) then
        (Fin 0,
         field_error fieldName ''Invalid - Amount cannot be negative, setting to 0''
           (VFloat amount) quality h)
      else (amount, field_ok fieldName ''Valid amount'' (VFloat amount) quality h))"

definition validateAndParseDateTime ::
  "parser \<Rightarrow> string \<Rightarrow> string \<Rightarrow> RecordQuality \<Rightarrow> heap \<Rightarrow> Time \<times> RecordQuality \<times> heap" where
  "validateAndParseDateTime parse dateTimeStr fieldName quality h =
     (if TrimSpace dateTimeStr = [] then
        (zero_time,
         field_error fieldName ''Missing - DateTime field is empty'' (VString dateTimeStr)
           quality h)
      else (case parse_first parse
                 [''2006-01-02T15:04:05Z'', ''2006-01-02T15:04:05.000Z'',
                  ''2006-01-02 15:04:05'', ''2006/01/02 15:04:05''] dateTimeStr of
          Some dateTime \<Rightarrow>
            (dateTime, field_ok fieldName ''Valid datetime'' (VString dateTimeStr) quality h)
        | None \<Rightarrow>
            (zero_time,
             field_error fieldName
               ''Invalid datetime format - Expected ISO format or YYYY-MM-DD HH:MM:SS''
               (VString dateTimeStr) quality h)))"

definition validateUTMCampaign ::
  "string \<Rightarrow> string \<Rightarrow> RecordQuality \<Rightarrow> heap \<Rightarrow> string \<times> RecordQuality \<times> heap" where
  "validateUTMCampaign campaign fieldName quality h =
     (if TrimSpace campaign = [] then
        (''unknown'',
         field_error fieldName
           (''Missing - UTM Campaign is empty, using 'unknown'' @ [CHR 0x27])
           (VString campaign) quality h)
      else (campaign, field_ok fieldName ''Valid UTM campaign'' (VString campaign) quality h))"

definition validateUTMSource ::
  "string option \<Rightarrow> string \<Rightarrow> RecordQuality \<Rightarrow> heap \<Rightarrow> string \<times> RecordQuality \<times> heap" where
  "validateUTMSource source fieldName quality h =
     (case source of
        None \<Rightarrow>
          (''unknown'',
           field_error fieldName
             (''Missing - UTM Source is null or empty, using 'unknown'' @ [CHR 0x27])
             (VStringPtr source) quality h)
      | Some s \<Rightarrow>
          if TrimSpace s = [] then
            (''unknown'',
             field_error fieldName
               (''Missing - UTM Source is null or empty, using 'unknown'' @ [CHR 0x27])
               (VStringPtr source) quality h)
          else (TrimSpace s, field_ok fieldName ''Valid UTM source'' (VString s) quality h))"

definition validateUTMMedium ::
  "string option \<Rightarrow> string \<Rightarrow> RecordQuality \<Rightarrow> heap \<Rightarrow> string \<times> RecordQuality \<times> heap" where
  "validateUTMMedium medium fieldName quality h =
     (case medium of
        None \<Rightarrow>
          (''unknown'',
           field_error fieldName
             (''Missing - UTM Medium is null or empty, using 'unknown'' @ [CHR 0x27])
             (VStringPtr medium) quality h)
      | Some s \<Rightarrow>
          if TrimSpace s = [] then
            (''unknown'',
             field_error fieldName
               (''Missing - UTM Medium is null or empty, using 'unknown'' @ [CHR 0x27])
               (VStringPtr medium) quality h)
          else (TrimSpace s, field_ok fieldName ''Valid UTM medium'' (VString s) quality h))"

definition generateUTMKey :: "string \<Rightarrow> string \<Rightarrow> string \<Rightarrow> string" where
  "generateUTMKey campaign source medium =
     (let campaign = (if TrimSpace campaign = [] then ''unknown'' else campaign)
      in campaign @ ''|'' @ source @ ''|'' @ medium)"

subsection \<open>Record normalizer\<close>

text \<open>
  The body of the loop of \<^verbatim>\<open>NormalizeAdsRecords\<close> for the record at index \<open>i\<close>: a fresh
  quality record with a fresh table, the nine validators in the order of the struct
  literal, the UTM key, and the final verdict. The \<^verbatim>\<open>Quality\<close> field of the literal copies
  the quality record after the validator calls that precede it have run.
\<close>

definition normalizeAdsRecord ::
  "parser \<Rightarrow> nat \<Rightarrow> AdsRecord \<Rightarrow> heap \<Rightarrow> NormalizedAdsRecord \<times> heap" where
  "normalizeAdsRecord parse i record h =
     (let (a, h) = make_map h;
          quality = \<lparr>RecordID = ''ads_'' @ show_int (int i), IsValid = True,
                      FieldErrors = a, ErrorCount = 0\<rparr>;
          (date, quality, h) =
             validateAndParseDate parse (AdsRecord.Date record) ''date'' quality h;
          (campaignID, quality, h) =
             validateCampaignID (AdsRecord.CampaignID record) ''campaign_id'' quality h;
          (channel, quality, h) =
             validateChannel (AdsRecord.Channel record) ''channel'' quality h;
          (clicks, quality, h) = validateClicks (AdsRecord.Clicks record) ''clicks'' quality h;
          (impressions, quality, h) =
             validateImpressions (AdsRecord.Impressions record) ''impressions'' quality h;
          (cost, quality, h) = validateCost (AdsRecord.Cost record) ''cost'' quality h;
          (utmCampaign, quality, h) =
             validateUTMCampaign (AdsRecord.UTMCampaign record) ''utm_campaign'' quality h;
          (utmSource, quality, h) =
             validateUTMSource (AdsRecord.UTMSource record) ''utm_source'' quality h;
          (utmMedium, quality, h) =
             validateUTMMedium (AdsRecord.UTMMedium record) ''utm_medium'' quality h;
          normalizedRecord =
            \<lparr>NormalizedAdsRecord.Date = date,
             NormalizedAdsRecord.CampaignID = campaignID,
             NormalizedAdsRecord.Channel = channel,
             NormalizedAdsRecord.Clicks = clicks,
             NormalizedAdsRecord.Impressions = impressions,
             NormalizedAdsRecord.Cost = cost,
             NormalizedAdsRecord.UTMCampaign = utmCampaign,
             NormalizedAdsRecord.UTMSource = utmSource,
             NormalizedAdsRecord.UTMMedium = utmMedium,
             NormalizedAdsRecord.UTMKey = generateUTMKey utmCampaign utmSource utmMedium,
             NormalizedAdsRecord.Quality = quality\<lparr>IsValid := (ErrorCount quality = 0)\<rparr>\<rparr>
      in (normalizedRecord, h))"

fun normalizeAds_loop ::
  "parser \<Rightarrow> nat \<Rightarrow> AdsRecord list \<Rightarrow> heap \<Rightarrow> NormalizedAdsRecord list \<times> heap" where
  "normalizeAds_loop parse i [] h = ([], h)"
| "normalizeAds_loop parse i (record # records) h =
     (let (normalizedRecord, h) = normalizeAdsRecord parse i record h;
          (normalized, h) = normalizeAds_loop parse (Suc i) records h
      in (normalizedRecord # normalized, h))"

definition normalizeCRMRecord ::
  "Transformer \<Rightarrow> parser \<Rightarrow> nat \<Rightarrow> CRMRecord \<Rightarrow> heap \<Rightarrow> NormalizedCRMRecord \<times> heap" where
  "normalizeCRMRecord t parse i record h =
     (let (a, h) = make_map h;
          quality = \<lparr>RecordID = ''crm_'' @ show_int (int i), IsValid = True,
                      FieldErrors = a, ErrorCount = 0\<rparr>;
          (opportunityID, quality, h) =
             validateOpportunityID (CRMRecord.OpportunityID record) ''opportunity_id'' quality h;
          (contactEmail, quality, h) =
             validateEmail t (CRMRecord.ContactEmail record) ''contact_email'' quality h;
          (stage, quality, h) = validateStage (CRMRecord.Stage record) ''stage'' quality h;
          (amount, quality, h) = validateAmount (CRMRecord.Amount record) ''amount'' quality h;
          (createdAt, quality, h) =
             validateAndParseDateTime parse (CRMRecord.CreatedAt record) ''created_at'' quality h;
          (utmCampaign, quality, h) =
             validateUTMCampaign (CRMRecord.UTMCampaign record) ''utm_campaign'' quality h;
          (utmSource, quality, h) =
             validateUTMSource (CRMRecord.UTMSource record) ''utm_source'' quality h;
          (utmMedium, quality, h) =
             validateUTMMedium (CRMRecord.UTMMedium record) ''utm_medium'' quality h;
          normalizedRecord =
            \<lparr>NormalizedCRMRecord.OpportunityID = opportunityID,
             NormalizedCRMRecord.ContactEmail = contactEmail,
             NormalizedCRMRecord.Stage = stage,
             NormalizedCRMRecord.Amount = amount,
             NormalizedCRMRecord.CreatedAt = createdAt,
             NormalizedCRMRecord.UTMCampaign = utmCampaign,
             NormalizedCRMRecord.UTMSource = utmSource,
             NormalizedCRMRecord.UTMMedium = utmMedium,
             NormalizedCRMRecord.UTMKey = generateUTMKey utmCampaign utmSource utmMedium,
             NormalizedCRMRecord.Quality = quality\<lparr>IsValid := (ErrorCount quality = 0)\<rparr>\<rparr>
      in (normalizedRecord, h))"

fun normalizeCRM_loop ::
  "Transformer \<Rightarrow> parser \<Rightarrow> nat \<Rightarrow> CRMRecord list \<Rightarrow> heap
     \<Rightarrow> NormalizedCRMRecord list \<times> heap" where
  "normalizeCRM_loop t parse i [] h = ([], h)"
| "normalizeCRM_loop t parse i (record # records) h =
     (let (normalizedRecord, h) = normalizeCRMRecord t parse i record h;
          (normalized, h) = normalizeCRM_loop t parse (Suc i) records h
      in (normalizedRecord # normalized, h))"

subsection \<open>Deduplicator\<close>

text \<open>
  The loop variable \<^verbatim>\<open>record\<close> is a copy of the element of the slice; the copy shares the
  table of its \<^verbatim>\<open>FieldErrors\<close> with the element. For a record whose key was seen, the
  \<^verbatim>\<open>else\<close> branch writes a \<^verbatim>\<open>"duplicate"\<close> verdict into that table and changes
  \<^verbatim>\<open>ErrorCount\<close> and \<^verbatim>\<open>IsValid\<close> of the copy, which the loop then drops:
  \<open>markDuplicateAds\<close> returns the copy and the heap, the loop keeps the heap.
  \<^verbatim>\<open>seen\<close> maps a key to the index of its first record.
\<close>

definition adsKey :: "NormalizedAdsRecord \<Rightarrow> string" where
  "adsKey record =
     Format_date (NormalizedAdsRecord.Date record) @ ''|'' @
     NormalizedAdsRecord.CampaignID record @ ''|'' @ NormalizedAdsRecord.Channel record"

definition markDuplicateAds ::
  "string \<Rightarrow> nat \<Rightarrow> NormalizedAdsRecord \<Rightarrow> heap \<Rightarrow> NormalizedAdsRecord \<times> heap" where
  "markDuplicateAds key existingIndex record h =
     (let quality = NormalizedAdsRecord.Quality record;
          h = map_assign (FieldErrors quality) ''duplicate''
                \<lparr>FieldQuality.IsValid = False,
                 Description = ''Duplicate record found (original at index '' @
                               show_int (int existingIndex) @ '')'',
                 OriginalValue = VString key\<rparr> h;
          quality = quality\<lparr>ErrorCount := ErrorCount quality + 1\<rparr>;
          quality = quality\<lparr>IsValid := False\<rparr>
      in (record\<lparr>NormalizedAdsRecord.Quality := quality\<rparr>, h))"

fun dedupAds_loop ::
  "nat \<Rightarrow> (string \<rightharpoonup> nat) \<Rightarrow> NormalizedAdsRecord list \<Rightarrow> heap
     \<Rightarrow> NormalizedAdsRecord list \<times> heap" where
  "dedupAds_loop i seen [] h = ([], h)"
| "dedupAds_loop i seen (record # records) h =
     (let key = adsKey record in
      case seen key of
        None \<Rightarrow>
          (let (unique, h) = dedupAds_loop (Suc i) (seen(key \<mapsto> i)) records h
           in (record # unique, h))
      | Some existingIndex \<Rightarrow>
          (let (record, h) = markDuplicateAds key existingIndex record h
           in dedupAds_loop (Suc i) seen records h))"

definition deduplicateAdsRecords ::
  "NormalizedAdsRecord list \<Rightarrow> heap \<Rightarrow> NormalizedAdsRecord list \<times> heap" where
  "deduplicateAdsRecords records h = dedupAds_loop 0 Map.empty records h"

definition markDuplicateCRM ::
  "nat \<Rightarrow> NormalizedCRMRecord \<Rightarrow> heap \<Rightarrow> NormalizedCRMRecord \<times> heap" where
  "markDuplicateCRM existingIndex record h =
     (let quality = NormalizedCRMRecord.Quality record;
          h = map_assign (FieldErrors quality) ''duplicate''
                \<lparr>FieldQuality.IsValid = False,
                 Description = ''Duplicate opportunity ID found (original at index '' @
                               show_int (int existingIndex) @ '')'',
                 OriginalValue = VString (NormalizedCRMRecord.OpportunityID record)\<rparr> h;
          quality = quality\<lparr>ErrorCount := ErrorCount quality + 1\<rparr>;
          quality = quality\<lparr>IsValid := False\<rparr>
      in (record\<lparr>NormalizedCRMRecord.Quality := quality\<rparr>, h))"

fun dedupCRM_loop ::
  "nat \<Rightarrow> (string \<rightharpoonup> nat) \<Rightarrow> NormalizedCRMRecord list \<Rightarrow> heap
     \<Rightarrow> NormalizedCRMRecord list \<times> heap" where
  "dedupCRM_loop i seen [] h = ([], h)"
| "dedupCRM_loop i seen (record # records) h =
     (case seen (NormalizedCRMRecord.OpportunityID record) of
        None \<Rightarrow>
          (let (unique, h) =
                 dedupCRM_loop (Suc i) (seen(NormalizedCRMRecord.OpportunityID record \<mapsto> i))
                   records h
           in (record # unique, h))
      | Some existingIndex \<Rightarrow>
          (let (record, h) = markDuplicateCRM existingIndex record h
           in dedupCRM_loop (Suc i) seen records h))"

definition deduplicateCRMRecords ::
  "NormalizedCRMRecord list \<Rightarrow> heap \<Rightarrow> NormalizedCRMRecord list \<times> heap" where
  "deduplicateCRMRecords records h = dedupCRM_loop 0 Map.empty records h"

definition NormalizeAdsRecords ::
  "parser \<Rightarrow> AdsRecord list \<Rightarrow> heap \<Rightarrow> NormalizedAdsRecord list \<times> heap" where
  "NormalizeAdsRecords parse records h =
     (let (normalized, h) = normalizeAds_loop parse 0 records h
      in deduplicateAdsRecords normalized h)"

definition NormalizeCRMRecords ::
  "Transformer \<Rightarrow> parser \<Rightarrow> CRMRecord list \<Rightarrow> heap \<Rightarrow> NormalizedCRMRecord list \<times> heap" where
  "NormalizeCRMRecords t parse records h =
     (let (normalized, h) = normalizeCRM_loop t parse 0 records h
      in deduplicateCRMRecords normalized h)"

subsection \<open>Quality report\<close>

text \<open>
  \<^verbatim>\<open>issueCount\<close> is a \<^verbatim>\<open>map[string]int\<close> local to \<open>identifyCommonIssues\<close>; a missing key reads
  as 0, so \<^verbatim>\<open>issueCount[d]++\<close> stores one more than the count read. The map is an association
  list here, and the two traversals of a map (the verdicts of a record, the counted
  descriptions) follow the list.
\<close>

definition increment :: "string \<Rightarrow> (string \<times> int) list \<Rightarrow> (string \<times> int) list" where
  "increment d issueCount =
     AList.update d ((case map_of issueCount d of None \<Rightarrow> 0 | Some c \<Rightarrow> c) + 1) issueCount"

fun countFieldErrors ::
  "(string \<times> FieldQuality) list \<Rightarrow> (string \<times> int) list \<Rightarrow> (string \<times> int) list" where
  "countFieldErrors [] issueCount = issueCount"
| "countFieldErrors ((fieldName, fieldError) # fieldErrors) issueCount =
     countFieldErrors fieldErrors
       (if \<not> FieldQuality.IsValid fieldError
        then increment (Description fieldError) issueCount else issueCount)"

fun countIssues ::
  "heap \<Rightarrow> RecordQuality list \<Rightarrow> (string \<times> int) list \<Rightarrow> (string \<times> int) list" where
  \<comment> \<open>the loop over the records of one batch, on their quality records\<close>
  "countIssues h [] issueCount = issueCount"
| "countIssues h (quality # qualities) issueCount =
     countIssues h qualities (countFieldErrors (tables h (FieldErrors quality)) issueCount)"

fun collectCommon :: "(string \<times> int) list \<Rightarrow> string list" where
  "collectCommon [] = []"
| "collectCommon ((issue, count) # issueCount) =
     (if count > 1
      then (issue @ '' (occurs '' @ show_int count @ '' times)'') # collectCommon issueCount
      else collectCommon issueCount)"

definition identifyCommonIssues ::
  "NormalizedAdsRecord list \<Rightarrow> NormalizedCRMRecord list \<Rightarrow> heap \<Rightarrow> string list" where
  "identifyCommonIssues adsRecords crmRecords h =
     (let issueCount = countIssues h (map NormalizedAdsRecord.Quality adsRecords) [];
          issueCount = countIssues h (map NormalizedCRMRecord.Quality crmRecords) issueCount
      in collectCommon issueCount)"

fun scanQuality :: "RecordQuality list \<Rightarrow> RecordQuality list \<times> int
                      \<Rightarrow> RecordQuality list \<times> int" where
  \<comment> \<open>the loop that copies the quality records of a batch and counts the valid ones\<close>
  "scanQuality [] (report, valid) = (report, valid)"
| "scanQuality (quality # qualities) (report, valid) =
     scanQuality qualities (report @ [quality], if IsValid quality then valid + 1 else valid)"

text \<open>\<^verbatim>\<open>time.Now().Format(time.RFC3339)\<close> is the parameter \<open>now\<close>.\<close>

definition GenerateQualityReport ::
  "string \<Rightarrow> NormalizedAdsRecord list \<Rightarrow> NormalizedCRMRecord list \<Rightarrow> heap
     \<Rightarrow> DataQualityReport" where
  "GenerateQualityReport now adsRecords crmRecords h =
     (let (adsQuality, validAds) =
            scanQuality (map NormalizedAdsRecord.Quality adsRecords) ([], 0);
          (crmQuality, validCRM) =
            scanQuality (map NormalizedCRMRecord.Quality crmRecords) ([], 0);
          adsScore =
            (if length adsRecords > 0
             then f64_mul (f64_div (f64_of_int validAds) (f64_of_int (int (length adsRecords))))
                    (Fin 100)
             else Fin 0);
          crmScore =
            (if length crmRecords > 0
             then f64_mul (f64_div (f64_of_int validCRM) (f64_of_int (int (length crmRecords))))
                    (Fin 100)
             else Fin 0);
          totalRecords = int (length adsRecords) + int (length crmRecords);
          overallScore =
            (if totalRecords > 0
             then f64_mul (f64_div (f64_of_int (validAds + validCRM)) (f64_of_int totalRecords))
                    (Fin 100)
             else Fin 0);
          commonIssues = identifyCommonIssues adsRecords crmRecords h
      in \<lparr>Summary =
            \<lparr>TotalAdsRecords = int (length adsRecords),
             ValidAdsRecords = validAds,
             AdsQualityScore = adsScore,
             TotalCRMRecords = int (length crmRecords),
             ValidCRMRecords = validCRM,
             CRMQualityScore = crmScore,
             OverallQualityScore = overallScore,
             CommonIssues = commonIssues\<rparr>,
          AdsReport = adsQuality,
          CRMReport = crmQuality,
          Timestamp = now\<rparr>)"

section \<open>Metrics calculator\<close>

definition safeDivide :: "float64 \<Rightarrow> float64 \<Rightarrow> float64" where
  "safeDivide numerator denominator =
     (if denominator = Fin 0 then Fin 0
      else (let result = f64_div numerator denominator in
        if IsNaN result \<or> IsInf result 0 then Fin 0
        else f64_div (Round (f64_mul result (Fin 1000))) (Fin 1000)))"

text \<open>
  \<^verbatim>\<open>adsGrouped\<close> maps a key to the slice of the records with that key, in the order of the
  input. It is an association list in the order in which the keys first occur; Go visits
  the groups in an order it does not fix, and the rows of the result come in that order.
\<close>

fun groupAds ::
  "string \<Rightarrow> NormalizedAdsRecord list \<Rightarrow> (string \<times> NormalizedAdsRecord list) list
     \<Rightarrow> (string \<times> NormalizedAdsRecord list) list" where
  "groupAds channel [] adsGrouped = adsGrouped"
| "groupAds channel (record # records) adsGrouped =
     groupAds channel records
       (if channel = [] \<or> NormalizedAdsRecord.Channel record = channel then
          (let key = Format_date (NormalizedAdsRecord.Date record) @ ''|'' @
                     NormalizedAdsRecord.Channel record
           in AList.update key
                ((case map_of adsGrouped key of None \<Rightarrow> [] | Some g \<Rightarrow> g) @ [record])
                adsGrouped)
        else adsGrouped)"

fun aggregateAds ::
  "NormalizedAdsRecord list \<Rightarrow> int \<times> int \<times> float64 \<times> (string \<Rightarrow> bool)
     \<Rightarrow> int \<times> int \<times> float64 \<times> (string \<Rightarrow> bool)" where
  "aggregateAds [] acc = acc"
| "aggregateAds (record # records) (totalClicks, totalImpressions, totalCost, utmKeys) =
     aggregateAds records
       (wrap64 (totalClicks + NormalizedAdsRecord.Clicks record),
        wrap64 (totalImpressions + NormalizedAdsRecord.Impressions record),
        f64_add totalCost (NormalizedAdsRecord.Cost record),
        utmKeys(NormalizedAdsRecord.UTMKey record := True))"

text \<open>
  The counters of the CRM loop grow by one for a record at most, and a slice has fewer
  than \<open>2^63\<close> elements, so they stay in the range of \<^verbatim>\<open>int\<close> and are not wrapped.
\<close>

fun matchCRM ::
  "string \<Rightarrow> (string \<Rightarrow> bool) \<Rightarrow> NormalizedCRMRecord list \<Rightarrow> int \<times> int \<times> int \<times> float64
     \<Rightarrow> int \<times> int \<times> int \<times> float64" where
  "matchCRM date utmKeys [] acc = acc"
| "matchCRM date utmKeys (crmRecord # crmRecords) (leads, opportunities, closedWon, revenue) =
     matchCRM date utmKeys crmRecords
       (let recordDate = Format_date (NormalizedCRMRecord.CreatedAt crmRecord) in
        if recordDate = date \<and> utmKeys (NormalizedCRMRecord.UTMKey crmRecord) then
          (if NormalizedCRMRecord.Stage crmRecord = ''lead'' then
             (leads + 1, opportunities, closedWon, revenue)
           else if NormalizedCRMRecord.Stage crmRecord = ''opportunity'' then
             (leads, opportunities + 1, closedWon, revenue)
           else if NormalizedCRMRecord.Stage crmRecord = ''closed_won'' then
             (leads, opportunities, closedWon + 1,
              f64_add revenue (NormalizedCRMRecord.Amount crmRecord))
           else if NormalizedCRMRecord.Stage crmRecord = ''closed_lost'' then
             (leads, opportunities + 1, closedWon, revenue)
           else (leads, opportunities, closedWon, revenue))
        else (leads, opportunities, closedWon, revenue))"

definition channelRow ::
  "NormalizedAdsRecord list \<Rightarrow> NormalizedCRMRecord list \<Rightarrow> ChannelMetrics" where
  \<comment> \<open>the body of the loop over the groups, for a group that is not empty\<close>
  "channelRow adsGroup crmRecords =
     (let date = Format_date (NormalizedAdsRecord.Date (hd adsGroup));
          channelName = NormalizedAdsRecord.Channel (hd adsGroup);
          (totalClicks, totalImpressions, totalCost, utmKeys) =
             aggregateAds adsGroup (0, 0, Fin 0, \<lambda>k. False);
          (leads, opportunities, closedWon, revenue) =
             matchCRM date utmKeys crmRecords (0, 0, 0, Fin 0)
      in \<lparr>ChannelMetrics.Channel = channelName,
          ChannelMetrics.Date = date,
          ChannelMetrics.Clicks = totalClicks,
          ChannelMetrics.Impressions = totalImpressions,
          ChannelMetrics.Cost = totalCost,
          Leads = leads,
          Opportunities = opportunities + closedWon,
          ClosedWon = closedWon,
          Revenue = revenue,
          CPC = safeDivide totalCost (f64_of_int totalClicks),
          CPA = safeDivide totalCost (f64_of_int leads),
          CVRLeadToOpp = safeDivide (f64_of_int (opportunities + closedWon)) (f64_of_int leads),
          CVROppToWon =
            safeDivide (f64_of_int closedWon) (f64_of_int (opportunities + closedWon)),
          ROAS = safeDivide revenue totalCost,
          QualityScore = Fin 0,
          TotalRecords = 0,
          ValidRecords = 0\<rparr>)"

fun channelRows ::
  "(string \<times> NormalizedAdsRecord list) list \<Rightarrow> NormalizedCRMRecord list
     \<Rightarrow> ChannelMetrics list" where
  "channelRows [] crmRecords = []"
| "channelRows ((key, adsGroup) # adsGrouped) crmRecords =
     (if length adsGroup = 0 then channelRows adsGrouped crmRecords
      else channelRow adsGroup crmRecords # channelRows adsGrouped crmRecords)"

definition CalculateChannelMetrics ::
  "NormalizedAdsRecord list \<Rightarrow> NormalizedCRMRecord list \<Rightarrow> string \<Rightarrow> ChannelMetrics list" where
  "CalculateChannelMetrics adsRecords crmRecords channel =
     channelRows (groupAds channel adsRecords []) crmRecords"

section \<open>Reference definitions\<close>

text \<open>
  First occurrence wins, as the specification words it: going through a batch from left to
  right, a record is kept when no record before it (and no key of \<open>S\<close>) has its key.
\<close>

fun first_occurrences :: "('a \<Rightarrow> 'k) \<Rightarrow> 'k set \<Rightarrow> 'a list \<Rightarrow> 'a list" where
  "first_occurrences key S [] = []"
| "first_occurrences key S (x # xs) =
     (if key x \<in> S then first_occurrences key S xs
      else x # first_occurrences key (insert (key x) S) xs)"

text \<open>The number of failed verdicts in a table of field verdicts.\<close>

definition invalid_entries :: "(string \<times> FieldQuality) list \<Rightarrow> nat" where
  "invalid_entries al = length (filter (\<lambda>(name, v). \<not> FieldQuality.IsValid v) al)"

text \<open>
  The state of the normalization of one record, between two validators: the quality record
  \<open>q\<close> still points to the table \<open>a\<close> it was made with and bears the identifier \<open>rid\<close>, the
  table holds one verdict for each field of \<open>K\<close>, in this order, \<^verbatim>\<open>ErrorCount\<close> is the number of
  failed verdicts, and the heap differs from \<open>h0\<close> in the table \<open>a\<close> only.
\<close>

definition progress ::
  "heap \<Rightarrow> addr \<Rightarrow> string \<Rightarrow> string list \<Rightarrow> RecordQuality \<Rightarrow> heap \<Rightarrow> bool" where
  "progress h0 a rid K q h \<longleftrightarrow>
     FieldErrors q = a \<and> RecordID q = rid \<and> map fst (tables h a) = K \<and>
     ErrorCount q = int (invalid_entries (tables h a)) \<and>
     next_addr h = next_addr h0 \<and> (\<forall>b. b \<noteq> a \<longrightarrow> tables h b = tables h0 b)"

text \<open>
  A quality record that the normalizer has finished, seen in a heap \<open>h\<close>: it points to the
  table \<open>a\<close> and bears the identifier \<open>rid\<close>, its validity flag says whether the error count
  is zero, the table holds one verdict for each field of \<open>K\<close>, and the error count is the
  number of failed verdicts.
\<close>

definition recorded :: "heap \<Rightarrow> string list \<Rightarrow> addr \<Rightarrow> string \<Rightarrow> RecordQuality \<Rightarrow> bool" where
  "recorded h K a rid q \<longleftrightarrow>
     FieldErrors q = a \<and> RecordID q = rid \<and> IsValid q = (ErrorCount q = 0) \<and>
     map fst (tables h a) = K \<and> ErrorCount q = int (invalid_entries (tables h a))"

section \<open>Sample data\<close>

text \<open>Records and a heap on which the theorems below are instantiated.\<close>

definition empty_heap :: heap where
  "empty_heap = \<lparr>tables = (\<lambda>a. []), next_addr = 0\<rparr>"

definition sample_ads :: "string \<Rightarrow> string \<Rightarrow> addr \<Rightarrow> NormalizedAdsRecord" where
  "sample_ads campaign channel a =
     \<lparr>NormalizedAdsRecord.Date = \<lparr>year = 2025, month = 8, day = 1, nanos = 0\<rparr>,
      NormalizedAdsRecord.CampaignID = campaign,
      NormalizedAdsRecord.Channel = channel,
      NormalizedAdsRecord.Clicks = 100,
      NormalizedAdsRecord.Impressions = 1000,
      NormalizedAdsRecord.Cost = Fin 50,
      NormalizedAdsRecord.UTMCampaign = ''summer'',
      NormalizedAdsRecord.UTMSource = ''google'',
      NormalizedAdsRecord.UTMMedium = ''cpc'',
      NormalizedAdsRecord.UTMKey = ''summer|google|cpc'',
      NormalizedAdsRecord.Quality =
        \<lparr>RecordID = ''ads'', IsValid = True, FieldErrors = a, ErrorCount = 0\<rparr>\<rparr>"

definition sample_crm :: "string \<Rightarrow> string \<Rightarrow> float64 \<Rightarrow> addr \<Rightarrow> NormalizedCRMRecord" where
  "sample_crm opportunity stage amount a =
     \<lparr>NormalizedCRMRecord.OpportunityID = opportunity,
      NormalizedCRMRecord.ContactEmail = ''a@b.cc'',
      NormalizedCRMRecord.Stage = stage,
      NormalizedCRMRecord.Amount = amount,
      NormalizedCRMRecord.CreatedAt = \<lparr>year = 2025, month = 8, day = 1, nanos = 0\<rparr>,
      NormalizedCRMRecord.UTMCampaign = ''summer'',
      NormalizedCRMRecord.UTMSource = ''google'',
      NormalizedCRMRecord.UTMMedium = ''cpc'',
      NormalizedCRMRecord.UTMKey = ''summer|google|cpc'',
      NormalizedCRMRecord.Quality =
        \<lparr>RecordID = ''crm'', IsValid = True, FieldErrors = a, ErrorCount = 0\<rparr>\<rparr>"

definition sample_parse :: parser where
  "sample_parse layout s =
     (if layout = ''2006-01-02'' \<and> s = ''2025-08-01''
      then Some \<lparr>year = 2025, month = 8, day = 1, nanos = 0\<rparr>
      else if layout = ''2006-01-02T15:04:05Z'' \<and> s = ''2025-08-01T10:00:00Z''
      then Some \<lparr>year = 2025, month = 8, day = 1, nanos = 36000000000000\<rparr>
      else None)"

definition raw_ads :: "string \<Rightarrow> string \<Rightarrow> AdsRecord" where
  "raw_ads campaign channel =
     \<lparr>AdsRecord.Date = ''2025-08-01'',
      AdsRecord.CampaignID = campaign,
      AdsRecord.Channel = channel,
      AdsRecord.Clicks = 100,
      AdsRecord.Impressions = 1000,
      AdsRecord.Cost = Fin 50,
      AdsRecord.UTMCampaign = ''summer'',
      AdsRecord.UTMSource = Some ''google'',
      AdsRecord.UTMMedium = None\<rparr>"

definition raw_crm :: "string \<Rightarrow> string \<Rightarrow> CRMRecord" where
  "raw_crm opportunity email =
     \<lparr>CRMRecord.OpportunityID = opportunity,
      CRMRecord.ContactEmail = email,
      CRMRecord.Stage = ''closed_won'',
      CRMRecord.Amount = Fin 200,
      CRMRecord.CreatedAt = ''2025-08-01T10:00:00Z'',
      CRMRecord.UTMCampaign = ''summer'',
      CRMRecord.UTMSource = Some ''google'',
      CRMRecord.UTMMedium = Some ''cpc''\<rparr>"

section \<open>Properties of the float64 model\<close>

lemma quotient_of_pow2: "quotient_of (2 ^ n) = (2 ^ n, 1)"
proof -
  have "quotient_of (rat_of_int (2 ^ n)) = (2 ^ n, 1)"
    by (rule quotient_of_rat_of_int)
  then show ?thesis by simp
qed

lemma bitlen_1: "bitlen 1 = 1"
  by (subst compute_bitlen) simp

lemma bitlen_two_power: "bitlen (2 ^ n) = int n + 1"
  using bitlen_pow2 [of 1 n] by (simp add: bitlen_1)

lemma ilog2_pow2: "ilog2 (2 ^ n) = int n"
  by (simp add: ilog2_def quotient_of_pow2 Let_def bitlen_1 bitlen_two_power)

lemma round_even_int: "round_even (of_int k) = k"
  by (simp add: round_even_def)

text \<open>A power of two in the normal range is a binary64 value: rounding leaves it alone.\<close>

lemma f64_round_pow2:
  assumes "n \<le> 1023"
  shows "f64_round (2 ^ n) = Fin (2 ^ n)"
proof -
  have "(2::rat) ^ n \<le> 2 ^ 1023"
    using assms by (intro power_increasing) simp_all
  also have "\<dots> < 2 ^ 1024 - 2 ^ 970" by simp
  finally have small: "\<not> (2 ^ 1024 - 2 ^ 970 \<le> \<bar>(2::rat) ^ n\<bar>)" by simp
  have ulp: "(2::rat) ^ n / 2 powi (int n - 52) = of_int (2 ^ 52)"
    by (simp add: power_int_diff)
  have scaled: "rat_of_int (2 ^ 52) * 2 powi (int n - 52) = 2 ^ n"
    by (simp add: power_int_diff)
  have "f64_round (2 ^ n) =
      Fin (of_int (round_even ((2::rat) ^ n / 2 powi (int n - 52))) * 2 powi (int n - 52))"
    unfolding f64_round_def Let_def ilog2_pow2 using small by simp
  also have "\<dots> = Fin (2 ^ n)"
    unfolding ulp round_even_int scaled ..
  finally show ?thesis .
qed

lemma f64_round_not_NaN: "f64_round x \<noteq> NaN"
  by (simp add: f64_round_def Let_def)


section \<open>safeDivide\<close>

lemma safeDivide_zero_denominator: "safeDivide n (Fin 0) = Fin 0"
  by (simp add: safeDivide_def)

lemma Round_zero: "Round (Fin 0) = Fin 0"
proof -
  have "\<lfloor>(1::rat) / 2\<rfloor> = 0" by (simp add: floor_eq_iff)
  then show ?thesis by simp
qed

lemma f64_round_zero: "f64_round 0 = Fin 0"
  by (simp add: f64_round_def)

lemma safeDivide_zero_numerator: "safeDivide (Fin 0) (Fin d) = Fin 0"
proof (cases "d = 0")
  case True
  then show ?thesis by (simp add: safeDivide_def)
next
  case False
  then have quot: "f64_div (Fin 0) (Fin d) = Fin 0"
    by (simp add: f64_round_zero)
  have prod: "f64_mul (Fin 0) (Fin 1000) = Fin 0"
    by (simp add: f64_round_zero)
  have scaled: "f64_div (Fin 0) (Fin 1000) = Fin 0"
    by (simp add: f64_round_zero)
  show ?thesis
    unfolding safeDivide_def Let_def quot prod Round_zero scaled by simp
qed

lemma safeDivide_not_NaN: "safeDivide n d \<noteq> NaN"
proof (cases "d = Fin 0")
  case True
  then show ?thesis by (simp add: safeDivide_def)
next
  case False
  show ?thesis
  proof (cases "f64_div n d")
    case (Fin r)
    have "f64_div (Round (f64_round (r * 1000))) (Fin 1000) \<noteq> NaN"
      by (cases "f64_round (r * 1000)") (simp_all add: f64_round_not_NaN)
    with Fin False show ?thesis by (simp add: safeDivide_def)
  qed (use False in \<open>simp_all add: safeDivide_def\<close>)
qed

text \<open>
  C1. \<open>safeDivide\<close> tests the quotient for NaN and the infinities, but not the product
  \<^verbatim>\<open>result*1000\<close> it rounds afterwards. For the numerator \<open>2^1020\<close> (about \<open>1.12e307\<close>, a
  cost the JSON decoder accepts) and the denominator \<open>1\<close> (one click) the quotient
  \<open>2^1020\<close> is finite, the product overflows to \<open>+Inf\<close>, \<^verbatim>\<open>math.Round\<close> and the division by
  \<open>1000\<close> keep it, and \<open>safeDivide\<close> returns \<open>+Inf\<close>.
\<close>

theorem safeDivide_returns_infinity: "safeDivide (Fin (2 ^ 1020)) (Fin 1) = PInf"
proof -
  have quot: "f64_div (Fin (2 ^ 1020)) (Fin 1) = Fin (2 ^ 1020)"
  proof -
    have "f64_round (2 ^ 1020) = Fin (2 ^ 1020)"
      by (rule f64_round_pow2) simp
    then show ?thesis by simp
  qed
  have prod: "f64_mul (Fin (2 ^ 1020)) (Fin 1000) = PInf"
    by (simp add: f64_round_def)
  show ?thesis
    unfolding safeDivide_def Let_def quot prod by simp
qed


section \<open>Deduplication\<close>

lemma first_occurrences_index:
  "first_occurrences key S xs =
     map (nth xs)
       (filter (\<lambda>i. key (xs ! i) \<notin> S \<and> (\<forall>j<i. key (xs ! j) \<noteq> key (xs ! i))) [0..<length xs])"
proof (induction xs arbitrary: S)
  case Nil
  then show ?case by simp
next
  case (Cons x xs)
  have upt: "[0..<length (x # xs)] = 0 # map Suc [0..<length xs]"
    by (simp add: upt_conv_Cons map_Suc_upt del: upt_Suc)
  have all_Suc: "(\<forall>j<Suc i. P j) = (P 0 \<and> (\<forall>j<i. P (Suc j)))" for i and P :: "nat \<Rightarrow> bool"
    by (metis less_Suc_eq_0_disj)
  show ?case
  proof (cases "key x \<in> S")
    case True
    have "(key (xs ! i) \<notin> S \<and> key x \<noteq> key (xs ! i) \<and> Q) = (key (xs ! i) \<notin> S \<and> Q)" for i Q
      using True by auto
    with True show ?thesis
      unfolding upt by (simp add: Cons.IH filter_map comp_def all_Suc)
  next
    case False
    have "(key (xs ! i) \<noteq> key x \<and> key (xs ! i) \<notin> S \<and> Q) =
          (key (xs ! i) \<notin> S \<and> key x \<noteq> key (xs ! i) \<and> Q)" for i Q
      by auto
    with False show ?thesis
      unfolding upt by (simp add: Cons.IH filter_map comp_def all_Suc)
  qed
qed

lemma first_occurrences_subset: "set (first_occurrences key S xs) \<subseteq> set xs"
  by (induction xs arbitrary: S) auto

lemma first_occurrences_keys:
  "key ` set (first_occurrences key S xs) \<inter> S = {}"
  by (induction xs arbitrary: S) auto

lemma first_occurrences_distinct: "distinct (map key (first_occurrences key S xs))"
proof (induction xs arbitrary: S)
  case Nil
  then show ?case by simp
next
  case (Cons x xs)
  show ?case
    using Cons.IH first_occurrences_keys [of key "insert (key x) S" xs] by auto
qed

lemma first_occurrences_fixed:
  "distinct (map key xs) \<Longrightarrow> key ` set xs \<inter> S = {} \<Longrightarrow> first_occurrences key S xs = xs"
  by (induction xs arbitrary: S) auto

lemma first_occurrences_idem:
  "first_occurrences key {} (first_occurrences key {} xs) = first_occurrences key {} xs"
  by (rule first_occurrences_fixed) (simp_all add: first_occurrences_distinct)

lemma dedupAds_loop_fst:
  "fst (dedupAds_loop i seen records h) = first_occurrences adsKey (dom seen) records"
  by (induction records arbitrary: i seen h)
     (auto simp add: Let_def split_beta domIff split: option.splits)

lemma dedupCRM_loop_fst:
  "fst (dedupCRM_loop i seen records h) =
     first_occurrences NormalizedCRMRecord.OpportunityID (dom seen) records"
  by (induction records arbitrary: i seen h)
     (auto simp add: Let_def split_beta domIff split: option.splits)

lemma deduplicateAdsRecords_fst:
  "fst (deduplicateAdsRecords records h) = first_occurrences adsKey {} records"
  by (simp add: deduplicateAdsRecords_def dedupAds_loop_fst)

lemma deduplicateCRMRecords_fst:
  "fst (deduplicateCRMRecords records h) =
     first_occurrences NormalizedCRMRecord.OpportunityID {} records"
  by (simp add: deduplicateCRMRecords_def dedupCRM_loop_fst)

subsection \<open>What the deduplicator does to the heap\<close>

lemma map_assign_tables:
  "tables (map_assign a key v h) b =
     (if b = a then AList.update key v (tables h a) else tables h b)"
  by (simp add: map_assign_def)

lemma map_assign_next_addr: "next_addr (map_assign a key v h) = next_addr h"
  by (simp add: map_assign_def)

lemma markDuplicateAds_heap:
  "snd (markDuplicateAds key n record h) =
     map_assign (FieldErrors (NormalizedAdsRecord.Quality record)) ''duplicate''
       \<lparr>FieldQuality.IsValid = False,
        Description = ''Duplicate record found (original at index '' @ show_int (int n) @ '')'',
        OriginalValue = VString key\<rparr> h"
  by (simp add: markDuplicateAds_def Let_def)

lemma markDuplicateAds_copy:
  "fst (markDuplicateAds key n record h) =
     record\<lparr>NormalizedAdsRecord.Quality :=
       (NormalizedAdsRecord.Quality record)
         \<lparr>ErrorCount := ErrorCount (NormalizedAdsRecord.Quality record) + 1,
          IsValid := False\<rparr>\<rparr>"
  by (simp add: markDuplicateAds_def Let_def)

lemma markDuplicateCRM_heap:
  "snd (markDuplicateCRM n record h) =
     map_assign (FieldErrors (NormalizedCRMRecord.Quality record)) ''duplicate''
       \<lparr>FieldQuality.IsValid = False,
        Description =
          ''Duplicate opportunity ID found (original at index '' @ show_int (int n) @ '')'',
        OriginalValue = VString (NormalizedCRMRecord.OpportunityID record)\<rparr> h"
  by (simp add: markDuplicateCRM_def Let_def)

lemma markDuplicateCRM_copy:
  "fst (markDuplicateCRM n record h) =
     record\<lparr>NormalizedCRMRecord.Quality :=
       (NormalizedCRMRecord.Quality record)
         \<lparr>ErrorCount := ErrorCount (NormalizedCRMRecord.Quality record) + 1,
          IsValid := False\<rparr>\<rparr>"
  by (simp add: markDuplicateCRM_def Let_def)

text \<open>The loop writes to the tables of the records it is given, and to no other.\<close>

lemma dedupAds_loop_other:
  "a \<notin> (FieldErrors \<circ> NormalizedAdsRecord.Quality) ` set records \<Longrightarrow>
   tables (snd (dedupAds_loop i seen records h)) a = tables h a"
  by (induction records arbitrary: i seen h)
     (auto simp add: Let_def split_beta markDuplicateAds_heap map_assign_tables
           split: option.splits)

lemma dedupCRM_loop_other:
  "a \<notin> (FieldErrors \<circ> NormalizedCRMRecord.Quality) ` set records \<Longrightarrow>
   tables (snd (dedupCRM_loop i seen records h)) a = tables h a"
  by (induction records arbitrary: i seen h)
     (auto simp add: Let_def split_beta markDuplicateCRM_heap map_assign_tables
           split: option.splits)

lemma dedupAds_loop_next_addr: "next_addr (snd (dedupAds_loop i seen records h)) = next_addr h"
  by (induction records arbitrary: i seen h)
     (auto simp add: Let_def split_beta markDuplicateAds_heap map_assign_next_addr
           split: option.splits)

lemma dedupCRM_loop_next_addr: "next_addr (snd (dedupCRM_loop i seen records h)) = next_addr h"
  by (induction records arbitrary: i seen h)
     (auto simp add: Let_def split_beta markDuplicateCRM_heap map_assign_next_addr
           split: option.splits)

text \<open>
  When every record has a table of its own, the table of a record that is kept is left as
  it was, and the table of a record that is dropped has gained the \<^verbatim>\<open>"duplicate"\<close> verdict.
\<close>

lemma dedupAds_loop_kept:
  assumes "distinct (map (FieldErrors \<circ> NormalizedAdsRecord.Quality) records)"
    and "r \<in> set (fst (dedupAds_loop i seen records h))"
  shows "tables (snd (dedupAds_loop i seen records h)) (FieldErrors (NormalizedAdsRecord.Quality r))
         = tables h (FieldErrors (NormalizedAdsRecord.Quality r))"
  using assms
proof (induction records arbitrary: i seen h)
  case Nil
  then show ?case by simp
next
  case (Cons x xs)
  let ?addr = "FieldErrors \<circ> NormalizedAdsRecord.Quality"
  from Cons.prems(1) have fresh: "?addr x \<notin> ?addr ` set xs" and dist: "distinct (map ?addr xs)"
    by (simp_all add: comp_def)
  show ?case
  proof (cases "seen (adsKey x)")
    case None
    let ?rest = "dedupAds_loop (Suc i) (seen(adsKey x \<mapsto> i)) xs h"
    from None have eq: "dedupAds_loop i seen (x # xs) h = (x # fst ?rest, snd ?rest)"
      by (simp add: Let_def split_beta)
    from Cons.prems(2) eq have "r = x \<or> r \<in> set (fst ?rest)" by simp
    then show ?thesis
    proof
      assume "r = x"
      with fresh eq show ?thesis by (simp add: dedupAds_loop_other)
    next
      assume "r \<in> set (fst ?rest)"
      with Cons.IH [OF dist] eq show ?thesis by simp
    qed
  next
    case (Some n)
    let ?h1 = "snd (markDuplicateAds (adsKey x) n x h)"
    let ?rest = "dedupAds_loop (Suc i) seen xs ?h1"
    from Some have eq: "dedupAds_loop i seen (x # xs) h = ?rest"
      by (simp add: Let_def split_beta)
    with Cons.prems(2) have mem: "r \<in> set (fst ?rest)" by simp
    then have "r \<in> set xs"
      using first_occurrences_subset [of adsKey "dom seen" xs] by (auto simp: dedupAds_loop_fst)
    with fresh have "?addr r \<noteq> ?addr x" by (metis image_eqI)
    then have "tables ?h1 (?addr r) = tables h (?addr r)"
      by (simp add: markDuplicateAds_heap map_assign_tables)
    with Cons.IH [OF dist mem] eq show ?thesis by simp
  qed
qed

lemma dedupAds_loop_dropped:
  assumes "distinct (map (FieldErrors \<circ> NormalizedAdsRecord.Quality) records)"
    and "r \<in> set records" and "r \<notin> set (fst (dedupAds_loop i seen records h))"
  shows "\<exists>n. tables (snd (dedupAds_loop i seen records h))
                (FieldErrors (NormalizedAdsRecord.Quality r)) =
              tables (snd (markDuplicateAds (adsKey r) n r h))
                (FieldErrors (NormalizedAdsRecord.Quality r))"
  using assms
proof (induction records arbitrary: i seen h)
  case Nil
  then show ?case by simp
next
  case (Cons x xs)
  let ?addr = "FieldErrors \<circ> NormalizedAdsRecord.Quality"
  from Cons.prems(1) have fresh: "?addr x \<notin> ?addr ` set xs" and dist: "distinct (map ?addr xs)"
    by (simp_all add: comp_def)
  show ?case
  proof (cases "seen (adsKey x)")
    case None
    let ?rest = "dedupAds_loop (Suc i) (seen(adsKey x \<mapsto> i)) xs h"
    from None have eq: "dedupAds_loop i seen (x # xs) h = (x # fst ?rest, snd ?rest)"
      by (simp add: Let_def split_beta)
    from Cons.prems(2,3) eq have "r \<in> set xs" and "r \<notin> set (fst ?rest)" by auto
    then show ?thesis
      unfolding eq snd_conv by (rule Cons.IH [OF dist])
  next
    case (Some n)
    let ?h1 = "snd (markDuplicateAds (adsKey x) n x h)"
    let ?rest = "dedupAds_loop (Suc i) seen xs ?h1"
    from Some have eq: "dedupAds_loop i seen (x # xs) h = ?rest"
      by (simp add: Let_def split_beta)
    show ?thesis
    proof (cases "r = x")
      case True
      from fresh have "tables (snd ?rest) (?addr x) = tables ?h1 (?addr x)"
        by (rule dedupAds_loop_other)
      with True show ?thesis
        unfolding eq by auto
    next
      case False
      with Cons.prems(2,3) eq have mem: "r \<in> set xs" and out: "r \<notin> set (fst ?rest)" by auto
      from mem fresh have "?addr r \<noteq> ?addr x" by (metis image_eqI)
      then have same: "tables (snd (markDuplicateAds (adsKey r) m r ?h1)) (?addr r) =
                       tables (snd (markDuplicateAds (adsKey r) m r h)) (?addr r)" for m
        by (simp add: markDuplicateAds_heap map_assign_tables)
      from Cons.IH [OF dist mem out] show ?thesis
        unfolding eq using same by simp
    qed
  qed
qed

lemma dedupCRM_loop_kept:
  assumes "distinct (map (FieldErrors \<circ> NormalizedCRMRecord.Quality) records)"
    and "r \<in> set (fst (dedupCRM_loop i seen records h))"
  shows "tables (snd (dedupCRM_loop i seen records h)) (FieldErrors (NormalizedCRMRecord.Quality r))
         = tables h (FieldErrors (NormalizedCRMRecord.Quality r))"
  using assms
proof (induction records arbitrary: i seen h)
  case Nil
  then show ?case by simp
next
  case (Cons x xs)
  let ?addr = "FieldErrors \<circ> NormalizedCRMRecord.Quality"
  let ?k = "NormalizedCRMRecord.OpportunityID x"
  from Cons.prems(1) have fresh: "?addr x \<notin> ?addr ` set xs" and dist: "distinct (map ?addr xs)"
    by (simp_all add: comp_def)
  show ?case
  proof (cases "seen ?k")
    case None
    let ?rest = "dedupCRM_loop (Suc i) (seen(?k \<mapsto> i)) xs h"
    from None have eq: "dedupCRM_loop i seen (x # xs) h = (x # fst ?rest, snd ?rest)"
      by (simp add: Let_def split_beta)
    from Cons.prems(2) eq have "r = x \<or> r \<in> set (fst ?rest)" by simp
    then show ?thesis
    proof
      assume "r = x"
      with fresh eq show ?thesis by (simp add: dedupCRM_loop_other)
    next
      assume "r \<in> set (fst ?rest)"
      with Cons.IH [OF dist] eq show ?thesis by simp
    qed
  next
    case (Some n)
    let ?h1 = "snd (markDuplicateCRM n x h)"
    let ?rest = "dedupCRM_loop (Suc i) seen xs ?h1"
    from Some have eq: "dedupCRM_loop i seen (x # xs) h = ?rest"
      by (simp add: Let_def split_beta)
    with Cons.prems(2) have mem: "r \<in> set (fst ?rest)" by simp
    then have "r \<in> set xs"
      using first_occurrences_subset [of NormalizedCRMRecord.OpportunityID "dom seen" xs]
      by (auto simp: dedupCRM_loop_fst)
    with fresh have "?addr r \<noteq> ?addr x" by (metis image_eqI)
    then have "tables ?h1 (?addr r) = tables h (?addr r)"
      by (simp add: markDuplicateCRM_heap map_assign_tables)
    with Cons.IH [OF dist mem] eq show ?thesis by simp
  qed
qed

subsection \<open>The quality report copies the quality records it is given\<close>

lemma scanQuality_eq:
  "scanQuality qs (report, valid) = (report @ qs, valid + int (length (filter IsValid qs)))"
  by (induction qs arbitrary: report valid) simp_all

lemma GenerateQualityReport_AdsReport:
  "AdsReport (GenerateQualityReport now adsRecords crmRecords h) =
     map NormalizedAdsRecord.Quality adsRecords"
  by (simp add: GenerateQualityReport_def Let_def scanQuality_eq)

lemma GenerateQualityReport_CRMReport:
  "CRMReport (GenerateQualityReport now adsRecords crmRecords h) =
     map NormalizedCRMRecord.Quality crmRecords"
  by (simp add: GenerateQualityReport_def Let_def scanQuality_eq)

lemma dedupAds_loop_no_duplicates:
  "distinct (map adsKey records) \<Longrightarrow> adsKey ` set records \<inter> dom seen = {} \<Longrightarrow>
   dedupAds_loop i seen records h = (records, h)"
  by (induction records arbitrary: i seen h) (auto simp add: Let_def domIff split: option.splits)

lemma dedupCRM_loop_no_duplicates:
  "distinct (map NormalizedCRMRecord.OpportunityID records) \<Longrightarrow>
   NormalizedCRMRecord.OpportunityID ` set records \<inter> dom seen = {} \<Longrightarrow>
   dedupCRM_loop i seen records h = (records, h)"
  by (induction records arbitrary: i seen h) (auto simp add: Let_def domIff split: option.splits)

lemma sample_ads_key: "adsKey (sample_ads c ch a) = ''2025-08-01|'' @ c @ ''|'' @ ch"
  by (simp add: adsKey_def sample_ads_def Format_date_def appendInt_def)

lemma sample_ads_addr: "FieldErrors (NormalizedAdsRecord.Quality (sample_ads c ch a)) = a"
  by (simp add: sample_ads_def)

text \<open>
  C3. Deduplication is first-occurrence-wins. The key of an advertising record is its date
  as \<^verbatim>\<open>YYYY-MM-DD\<close>, \<^verbatim>\<open>"|"\<close>, its campaign id, \<^verbatim>\<open>"|"\<close> and its channel; the key of a CRM record
  is its opportunity id. The output holds, in the order of the input, exactly the records
  at the positions \<open>i\<close> whose key occurs at no position before \<open>i\<close>: the earliest record of
  each key is there and every later one is not.
\<close>

theorem dedup_first_occurrence_wins:
  "fst (deduplicateAdsRecords ads h) =
     map (nth ads)
       (filter (\<lambda>i. \<forall>j<i. adsKey (ads ! j) \<noteq> adsKey (ads ! i)) [0..<length ads]) \<and>
   fst (deduplicateCRMRecords crm h') =
     map (nth crm)
       (filter (\<lambda>i. \<forall>j<i. NormalizedCRMRecord.OpportunityID (crm ! j) \<noteq>
                             NormalizedCRMRecord.OpportunityID (crm ! i)) [0..<length crm]) \<and>
   adsKey r =
     Format_date (NormalizedAdsRecord.Date r) @ ''|'' @ NormalizedAdsRecord.CampaignID r @
     ''|'' @ NormalizedAdsRecord.Channel r"
  by (simp add: deduplicateAdsRecords_fst deduplicateCRMRecords_fst first_occurrences_index
        adsKey_def)

theorem dedup_first_occurrence_wins_witness:
  "fst (deduplicateAdsRecords
          [sample_ads ''C1'' ''google_ads'' 0, sample_ads ''C1'' ''google_ads'' 1] empty_heap) =
     [sample_ads ''C1'' ''google_ads'' 0] \<and>
   fst (deduplicateCRMRecords
          [sample_crm ''O1'' ''lead'' (Fin 0) 0, sample_crm ''O2'' ''lead'' (Fin 0) 1] empty_heap) =
     [sample_crm ''O1'' ''lead'' (Fin 0) 0, sample_crm ''O2'' ''lead'' (Fin 0) 1]"
proof -
  let ?ads = "[sample_ads ''C1'' ''google_ads'' 0, sample_ads ''C1'' ''google_ads'' 1]"
  let ?crm = "[sample_crm ''O1'' ''lead'' (Fin 0) 0, sample_crm ''O2'' ''lead'' (Fin 0) 1]"
  note wins = dedup_first_occurrence_wins [of ?ads empty_heap ?crm empty_heap]
  have "fst (deduplicateAdsRecords ?ads empty_heap) =
      map (nth ?ads) (filter (\<lambda>i. \<forall>j<i. adsKey (?ads ! j) \<noteq> adsKey (?ads ! i)) [0..<length ?ads])"
    using wins by (rule conjunct1)
  also have "\<dots> = [sample_ads ''C1'' ''google_ads'' 0]"
    by (simp add: sample_ads_key upt_conv_Cons del: upt_Suc)
  finally have ads: "fst (deduplicateAdsRecords ?ads empty_heap) = [sample_ads ''C1'' ''google_ads'' 0]" .
  have "fst (deduplicateCRMRecords ?crm empty_heap) =
      map (nth ?crm)
        (filter (\<lambda>i. \<forall>j<i. NormalizedCRMRecord.OpportunityID (?crm ! j) \<noteq>
                              NormalizedCRMRecord.OpportunityID (?crm ! i)) [0..<length ?crm])"
    using wins by blast
  also have "\<dots> = ?crm"
    by (simp add: sample_crm_def upt_conv_Cons del: upt_Suc)
  finally show ?thesis using ads by simp
qed

text \<open>
  C8. Deduplication is idempotent: the deduplicator applied to its own output, on any
  heap, returns that output, and leaves the heap as it is.
\<close>

theorem dedup_idempotent:
  "deduplicateAdsRecords (fst (deduplicateAdsRecords ads h)) h' =
     (fst (deduplicateAdsRecords ads h), h') \<and>
   deduplicateCRMRecords (fst (deduplicateCRMRecords crm h)) h' =
     (fst (deduplicateCRMRecords crm h), h')"
  by (simp add: deduplicateAdsRecords_def deduplicateCRMRecords_def dedupAds_loop_fst
        dedupCRM_loop_fst dedupAds_loop_no_duplicates dedupCRM_loop_no_duplicates
        first_occurrences_distinct)

text \<open>
  C4. Let every record of the batch have a table of its own for its field verdicts, as the
  normalizer makes them. Then the deduplicator leaves every record it keeps as it was,
  with its \<^verbatim>\<open>is_valid\<close>, its \<^verbatim>\<open>error_count\<close> and the table of its verdicts; the table of a
  record it drops gains the invalid \<^verbatim>\<open>"duplicate"\<close> verdict and is otherwise as before, and
  the copy it marks has one error more and is invalid; no other table changes. The quality
  report built from the output lists the quality records of the kept records and nothing
  else, so that no verdict \<^verbatim>\<open>"duplicate"\<close> written by the deduplicator is in it.
\<close>

theorem dedup_frame:
  assumes "distinct (map (FieldErrors \<circ> NormalizedAdsRecord.Quality) records)"
    and "deduplicateAdsRecords records h = (unique, h')"
  shows
    "(\<forall>r \<in> set unique. r \<in> set records \<and>
        tables h' (FieldErrors (NormalizedAdsRecord.Quality r)) =
        tables h (FieldErrors (NormalizedAdsRecord.Quality r))) \<and>
     (\<forall>r \<in> set records. r \<notin> set unique \<longrightarrow>
        (\<exists>n. map_of (tables h' (FieldErrors (NormalizedAdsRecord.Quality r))) =
               (map_of (tables h (FieldErrors (NormalizedAdsRecord.Quality r))))
                 (''duplicate'' \<mapsto>
                    \<lparr>FieldQuality.IsValid = False,
                     Description = ''Duplicate record found (original at index '' @
                                   show_int (int n) @ '')'',
                     OriginalValue = VString (adsKey r)\<rparr>) \<and>
              NormalizedAdsRecord.Quality (fst (markDuplicateAds (adsKey r) n r h)) =
                (NormalizedAdsRecord.Quality r)
                  \<lparr>ErrorCount := ErrorCount (NormalizedAdsRecord.Quality r) + 1,
                   IsValid := False\<rparr>)) \<and>
     (\<forall>a. a \<notin> (FieldErrors \<circ> NormalizedAdsRecord.Quality) ` (set records - set unique) \<longrightarrow>
        tables h' a = tables h a) \<and>
     AdsReport (GenerateQualityReport now unique crm h') =
       map NormalizedAdsRecord.Quality unique \<and>
     ((\<forall>r \<in> set records.
         ''duplicate'' \<notin> fst ` set (tables h (FieldErrors (NormalizedAdsRecord.Quality r)))) \<longrightarrow>
      (\<forall>q \<in> set (AdsReport (GenerateQualityReport now unique crm h')).
         ''duplicate'' \<notin> fst ` set (tables h' (FieldErrors q))))"
proof -
  let ?addr = "\<lambda>r. FieldErrors (NormalizedAdsRecord.Quality r)"
  from assms(2) have unique: "unique = fst (dedupAds_loop 0 Map.empty records h)"
    and h': "h' = snd (dedupAds_loop 0 Map.empty records h)"
    by (simp_all add: deduplicateAdsRecords_def)
  have sub: "set unique \<subseteq> set records"
    unfolding unique dedupAds_loop_fst by (rule first_occurrences_subset)
  have kept: "tables h' (?addr r) = tables h (?addr r)" if "r \<in> set unique" for r
    using that unfolding unique h' by (rule dedupAds_loop_kept [OF assms(1)])
  have dropped:
    "\<exists>n. map_of (tables h' (?addr r)) =
          (map_of (tables h (?addr r)))
            (''duplicate'' \<mapsto>
               \<lparr>FieldQuality.IsValid = False,
                Description = ''Duplicate record found (original at index '' @
                              show_int (int n) @ '')'',
                OriginalValue = VString (adsKey r)\<rparr>) \<and>
         NormalizedAdsRecord.Quality (fst (markDuplicateAds (adsKey r) n r h)) =
           (NormalizedAdsRecord.Quality r)
             \<lparr>ErrorCount := ErrorCount (NormalizedAdsRecord.Quality r) + 1, IsValid := False\<rparr>"
    if "r \<in> set records" "r \<notin> set unique" for r
  proof -
    from dedupAds_loop_dropped [OF assms(1) that(1)] that(2)
    obtain n where "tables h' (?addr r) = tables (snd (markDuplicateAds (adsKey r) n r h)) (?addr r)"
      unfolding unique h' by blast
    then show ?thesis
      by (intro exI [of _ n])
         (simp add: markDuplicateAds_heap markDuplicateAds_copy map_assign_tables update_conv')
  qed
  have other: "tables h' a = tables h a"
    if "a \<notin> (FieldErrors \<circ> NormalizedAdsRecord.Quality) ` (set records - set unique)" for a
  proof (cases "a \<in> ?addr ` set records")
    case True
    then obtain r where r: "r \<in> set records" "a = ?addr r" by blast
    with that have "r \<in> set unique" by auto
    with r kept show ?thesis by simp
  next
    case False
    then have "a \<notin> (FieldErrors \<circ> NormalizedAdsRecord.Quality) ` set records"
      by (simp add: comp_def)
    then show ?thesis unfolding h' by (rule dedupAds_loop_other)
  qed
  have report: "AdsReport (GenerateQualityReport now unique crm h') =
      map NormalizedAdsRecord.Quality unique"
    by (rule GenerateQualityReport_AdsReport)
  have clean: "''duplicate'' \<notin> fst ` set (tables h' (FieldErrors q))"
    if "\<forall>r \<in> set records. ''duplicate'' \<notin> fst ` set (tables h (?addr r))"
      and "q \<in> set (AdsReport (GenerateQualityReport now unique crm h'))" for q
  proof -
    from that(2) obtain r where r: "r \<in> set unique" "q = NormalizedAdsRecord.Quality r"
      unfolding report by auto
    with sub that(1) kept [OF r(1)] show ?thesis by auto
  qed
  from sub kept dropped other report clean show ?thesis by blast
qed

theorem dedup_frame_witness:
  "distinct (map (FieldErrors \<circ> NormalizedAdsRecord.Quality)
      [sample_ads ''C1'' ''google_ads'' 0, sample_ads ''C1'' ''google_ads'' 1]) \<and>
   deduplicateAdsRecords
      [sample_ads ''C1'' ''google_ads'' 0, sample_ads ''C1'' ''google_ads'' 1] empty_heap =
     ([sample_ads ''C1'' ''google_ads'' 0],
      snd (deduplicateAdsRecords
             [sample_ads ''C1'' ''google_ads'' 0, sample_ads ''C1'' ''google_ads'' 1]
             empty_heap)) \<and>
   tables (snd (deduplicateAdsRecords
                  [sample_ads ''C1'' ''google_ads'' 0, sample_ads ''C1'' ''google_ads'' 1]
                  empty_heap)) 0 = tables empty_heap 0 \<and>
   AdsReport (GenerateQualityReport ''2025-08-02T00:00:00Z'' [sample_ads ''C1'' ''google_ads'' 0] []
      (snd (deduplicateAdsRecords
              [sample_ads ''C1'' ''google_ads'' 0, sample_ads ''C1'' ''google_ads'' 1]
              empty_heap))) =
     [NormalizedAdsRecord.Quality (sample_ads ''C1'' ''google_ads'' 0)]"
proof -
  let ?records = "[sample_ads ''C1'' ''google_ads'' 0, sample_ads ''C1'' ''google_ads'' 1]"
  let ?h' = "snd (deduplicateAdsRecords ?records empty_heap)"
  have own: "distinct (map (FieldErrors \<circ> NormalizedAdsRecord.Quality) ?records)"
    by (simp add: sample_ads_addr)
  have run: "deduplicateAdsRecords ?records empty_heap =
      ([sample_ads ''C1'' ''google_ads'' 0], ?h')"
    by (rule prod_eqI) (simp_all add: deduplicateAdsRecords_fst sample_ads_key)
  note frame = dedup_frame [OF own run, of "''2025-08-02T00:00:00Z''" "[]"]
  from frame have "tables ?h' (FieldErrors (NormalizedAdsRecord.Quality
      (sample_ads ''C1'' ''google_ads'' 0))) =
    tables empty_heap (FieldErrors (NormalizedAdsRecord.Quality
      (sample_ads ''C1'' ''google_ads'' 0)))"
    by simp
  then have kept: "tables ?h' 0 = tables empty_heap 0"
    by (simp add: sample_ads_addr)
  from frame have "AdsReport (GenerateQualityReport ''2025-08-02T00:00:00Z''
      [sample_ads ''C1'' ''google_ads'' 0] [] ?h') =
    map NormalizedAdsRecord.Quality [sample_ads ''C1'' ''google_ads'' 0]"
    by blast
  with own run kept show ?thesis by simp
qed

section \<open>Field validators\<close>

lemma update_fresh: "k \<notin> fst ` set al \<Longrightarrow> AList.update k v al = al @ [(k, v)]"
  by (induction al) auto

lemma progress_fresh:
  assumes "progress h0 a rid K q h" and "f \<notin> set K"
  shows "AList.update f x (tables h a) = tables h a @ [(f, x)]"
proof -
  from assms have "f \<notin> set (map fst (tables h a))" by (simp add: progress_def)
  then have "f \<notin> fst ` set (tables h a)" by simp
  then show ?thesis by (rule update_fresh)
qed

lemma field_ok_progress:
  assumes "field_ok f d v q h = (q', h')" and "progress h0 a rid K q h" and "f \<notin> set K"
  shows "progress h0 a rid (K @ [f]) q' h'"
  using assms(1,2) progress_fresh [OF assms(2,3)]
  by (auto simp add: progress_def field_ok_def map_assign_def invalid_entries_def)

lemma field_error_progress:
  assumes "field_error f d v q h = (q', h')" and "progress h0 a rid K q h" and "f \<notin> set K"
  shows "progress h0 a rid (K @ [f]) q' h'"
  using assms(1,2) progress_fresh [OF assms(2,3)]
  by (auto simp add: progress_def field_error_def map_assign_def invalid_entries_def)

lemmas field_progress = field_ok_progress field_error_progress

text \<open>
  Every validator stores exactly one verdict, under the name it is given, and counts it
  when it is a failure.
\<close>

lemma validateAndParseDate_progress:
  "validateAndParseDate parse x f q h = (v, q', h') \<Longrightarrow> progress h0 a rid K q h \<Longrightarrow>
   f \<notin> set K \<Longrightarrow> progress h0 a rid (K @ [f]) q' h'"
  by (auto simp add: validateAndParseDate_def split: if_splits option.splits
        intro: field_progress)

lemma validateCampaignID_progress:
  "validateCampaignID x f q h = (v, q', h') \<Longrightarrow> progress h0 a rid K q h \<Longrightarrow>
   f \<notin> set K \<Longrightarrow> progress h0 a rid (K @ [f]) q' h'"
  by (auto simp add: validateCampaignID_def split: if_splits intro: field_progress)

lemma validateChannel_progress:
  "validateChannel x f q h = (v, q', h') \<Longrightarrow> progress h0 a rid K q h \<Longrightarrow>
   f \<notin> set K \<Longrightarrow> progress h0 a rid (K @ [f]) q' h'"
  by (auto simp add: validateChannel_def split: if_splits intro: field_progress)

lemma validateClicks_progress:
  "validateClicks x f q h = (v, q', h') \<Longrightarrow> progress h0 a rid K q h \<Longrightarrow>
   f \<notin> set K \<Longrightarrow> progress h0 a rid (K @ [f]) q' h'"
  by (auto simp add: validateClicks_def split: if_splits intro: field_progress)

lemma validateImpressions_progress:
  "validateImpressions x f q h = (v, q', h') \<Longrightarrow> progress h0 a rid K q h \<Longrightarrow>
   f \<notin> set K \<Longrightarrow> progress h0 a rid (K @ [f]) q' h'"
  by (auto simp add: validateImpressions_def split: if_splits intro: field_progress)

lemma validateCost_progress:
  "validateCost x f q h = (v, q', h') \<Longrightarrow> progress h0 a rid K q h \<Longrightarrow>
   f \<notin> set K \<Longrightarrow> progress h0 a rid (K @ [f]) q' h'"
  by (auto simp add: validateCost_def split: if_splits intro: field_progress)

lemma validateOpportunityID_progress:
  "validateOpportunityID x f q h = (v, q', h') \<Longrightarrow> progress h0 a rid K q h \<Longrightarrow>
   f \<notin> set K \<Longrightarrow> progress h0 a rid (K @ [f]) q' h'"
  by (auto simp add: validateOpportunityID_def split: if_splits intro: field_progress)

lemma validateEmail_progress:
  "validateEmail t x f q h = (v, q', h') \<Longrightarrow> progress h0 a rid K q h \<Longrightarrow>
   f \<notin> set K \<Longrightarrow> progress h0 a rid (K @ [f]) q' h'"
  by (auto simp add: validateEmail_def split: if_splits intro: field_progress)

lemma validateStage_progress:
  "validateStage x f q h = (v, q', h') \<Longrightarrow> progress h0 a rid K q h \<Longrightarrow>
   f \<notin> set K \<Longrightarrow> progress h0 a rid (K @ [f]) q' h'"
  by (auto simp add: validateStage_def split: if_splits intro: field_progress)

lemma validateAmount_progress:
  "validateAmount x f q h = (v, q', h') \<Longrightarrow> progress h0 a rid K q h \<Longrightarrow>
   f \<notin> set K \<Longrightarrow> progress h0 a rid (K @ [f]) q' h'"
  by (auto simp add: validateAmount_def split: if_splits intro: field_progress)

lemma validateAndParseDateTime_progress:
  "validateAndParseDateTime parse x f q h = (v, q', h') \<Longrightarrow> progress h0 a rid K q h \<Longrightarrow>
   f \<notin> set K \<Longrightarrow> progress h0 a rid (K @ [f]) q' h'"
  by (auto simp add: validateAndParseDateTime_def split: if_splits option.splits
        intro: field_progress)

lemma validateUTMCampaign_progress:
  "validateUTMCampaign x f q h = (v, q', h') \<Longrightarrow> progress h0 a rid K q h \<Longrightarrow>
   f \<notin> set K \<Longrightarrow> progress h0 a rid (K @ [f]) q' h'"
  by (auto simp add: validateUTMCampaign_def split: if_splits intro: field_progress)

lemma validateUTMSource_progress:
  "validateUTMSource x f q h = (v, q', h') \<Longrightarrow> progress h0 a rid K q h \<Longrightarrow>
   f \<notin> set K \<Longrightarrow> progress h0 a rid (K @ [f]) q' h'"
  by (auto simp add: validateUTMSource_def split: if_splits option.splits
        intro: field_progress)

lemma validateUTMMedium_progress:
  "validateUTMMedium x f q h = (v, q', h') \<Longrightarrow> progress h0 a rid K q h \<Longrightarrow>
   f \<notin> set K \<Longrightarrow> progress h0 a rid (K @ [f]) q' h'"
  by (auto simp add: validateUTMMedium_def split: if_splits option.splits
        intro: field_progress)

section \<open>Record normalizer\<close>

lemma make_map_progress:
  "progress (snd (make_map h)) (next_addr h) rid []
     \<lparr>RecordID = rid, IsValid = True, FieldErrors = next_addr h, ErrorCount = 0\<rparr>
     (snd (make_map h))"
  by (simp add: progress_def make_map_def invalid_entries_def)

text \<open>
  What the normalization of one advertising record leaves: the quality record of the
  result points to the table made for it, which holds the nine verdicts, and the validity
  flag says whether the error count is zero.
\<close>

lemma normalizeAdsRecord_progress:
  assumes "normalizeAdsRecord parse i record h = (n, h')"
  shows "\<exists>q. progress (snd (make_map h)) (next_addr h) (''ads_'' @ show_int (int i))
               [''date'', ''campaign_id'', ''channel'', ''clicks'', ''impressions'', ''cost'',
                ''utm_campaign'', ''utm_source'', ''utm_medium''] q h' \<and>
             NormalizedAdsRecord.Quality n = q\<lparr>IsValid := (ErrorCount q = 0)\<rparr> \<and>
             NormalizedAdsRecord.UTMCampaign n =
               (if TrimSpace (AdsRecord.UTMCampaign record) = [] then ''unknown''
                else AdsRecord.UTMCampaign record) \<and>
             NormalizedAdsRecord.UTMSource n =
               (case AdsRecord.UTMSource record of None \<Rightarrow> ''unknown''
                | Some s \<Rightarrow> if TrimSpace s = [] then ''unknown'' else TrimSpace s) \<and>
             NormalizedAdsRecord.UTMMedium n =
               (case AdsRecord.UTMMedium record of None \<Rightarrow> ''unknown''
                | Some s \<Rightarrow> if TrimSpace s = [] then ''unknown'' else TrimSpace s) \<and>
             NormalizedAdsRecord.UTMKey n =
               generateUTMKey (NormalizedAdsRecord.UTMCampaign n)
                 (NormalizedAdsRecord.UTMSource n) (NormalizedAdsRecord.UTMMedium n)"
proof -
  let ?a = "next_addr h"
  let ?h0 = "h\<lparr>tables := (tables h)(next_addr h := []), next_addr := Suc (next_addr h)\<rparr>"
  let ?rid = "''ads_'' @ show_int (int i)"
  let ?q0 = "\<lparr>RecordID = ?rid, IsValid = True, FieldErrors = ?a, ErrorCount = 0\<rparr>"
  have mk: "snd (make_map h) = ?h0" by (simp add: make_map_def)
  have p0: "progress ?h0 ?a ?rid [] ?q0 ?h0"
    using make_map_progress [of h ?rid] unfolding mk .
  obtain v1 q1 h1 where s1:
    "validateAndParseDate parse (AdsRecord.Date record) ''date'' ?q0 ?h0 = (v1, q1, h1)"
    by (rule prod_cases3)
  obtain v2 q2 h2 where s2:
    "validateCampaignID (AdsRecord.CampaignID record) ''campaign_id'' q1 h1 = (v2, q2, h2)"
    by (rule prod_cases3)
  obtain v3 q3 h3 where s3:
    "validateChannel (AdsRecord.Channel record) ''channel'' q2 h2 = (v3, q3, h3)"
    by (rule prod_cases3)
  obtain v4 q4 h4 where s4:
    "validateClicks (AdsRecord.Clicks record) ''clicks'' q3 h3 = (v4, q4, h4)"
    by (rule prod_cases3)
  obtain v5 q5 h5 where s5:
    "validateImpressions (AdsRecord.Impressions record) ''impressions'' q4 h4 = (v5, q5, h5)"
    by (rule prod_cases3)
  obtain v6 q6 h6 where s6:
    "validateCost (AdsRecord.Cost record) ''cost'' q5 h5 = (v6, q6, h6)"
    by (rule prod_cases3)
  obtain v7 q7 h7 where s7:
    "validateUTMCampaign (AdsRecord.UTMCampaign record) ''utm_campaign'' q6 h6 = (v7, q7, h7)"
    by (rule prod_cases3)
  obtain v8 q8 h8 where s8:
    "validateUTMSource (AdsRecord.UTMSource record) ''utm_source'' q7 h7 = (v8, q8, h8)"
    by (rule prod_cases3)
  obtain v9 q9 h9 where s9:
    "validateUTMMedium (AdsRecord.UTMMedium record) ''utm_medium'' q8 h8 = (v9, q9, h9)"
    by (rule prod_cases3)
  from validateAndParseDate_progress [OF s1 p0]
  have p1: "progress ?h0 ?a ?rid [''date''] q1 h1" by simp
  from validateCampaignID_progress [OF s2 p1]
  have p2: "progress ?h0 ?a ?rid [''date'', ''campaign_id''] q2 h2" by simp
  from validateChannel_progress [OF s3 p2]
  have p3: "progress ?h0 ?a ?rid [''date'', ''campaign_id'', ''channel''] q3 h3" by simp
  from validateClicks_progress [OF s4 p3]
  have p4: "progress ?h0 ?a ?rid [''date'', ''campaign_id'', ''channel'', ''clicks''] q4 h4"
    by simp
  from validateImpressions_progress [OF s5 p4]
  have p5: "progress ?h0 ?a ?rid
      [''date'', ''campaign_id'', ''channel'', ''clicks'', ''impressions''] q5 h5"
    by simp
  from validateCost_progress [OF s6 p5]
  have p6: "progress ?h0 ?a ?rid
      [''date'', ''campaign_id'', ''channel'', ''clicks'', ''impressions'', ''cost''] q6 h6"
    by simp
  from validateUTMCampaign_progress [OF s7 p6]
  have p7: "progress ?h0 ?a ?rid
      [''date'', ''campaign_id'', ''channel'', ''clicks'', ''impressions'', ''cost'',
       ''utm_campaign''] q7 h7"
    by simp
  from validateUTMSource_progress [OF s8 p7]
  have p8: "progress ?h0 ?a ?rid
      [''date'', ''campaign_id'', ''channel'', ''clicks'', ''impressions'', ''cost'',
       ''utm_campaign'', ''utm_source''] q8 h8"
    by simp
  from validateUTMMedium_progress [OF s9 p8]
  have p9: "progress ?h0 ?a ?rid
      [''date'', ''campaign_id'', ''channel'', ''clicks'', ''impressions'', ''cost'',
       ''utm_campaign'', ''utm_source'', ''utm_medium''] q9 h9"
    by simp
  have "normalizeAdsRecord parse i record h =
      (\<lparr>NormalizedAdsRecord.Date = v1,
        NormalizedAdsRecord.CampaignID = v2,
        NormalizedAdsRecord.Channel = v3,
        NormalizedAdsRecord.Clicks = v4,
        NormalizedAdsRecord.Impressions = v5,
        NormalizedAdsRecord.Cost = v6,
        NormalizedAdsRecord.UTMCampaign = v7,
        NormalizedAdsRecord.UTMSource = v8,
        NormalizedAdsRecord.UTMMedium = v9,
        NormalizedAdsRecord.UTMKey = generateUTMKey v7 v8 v9,
        NormalizedAdsRecord.Quality = q9\<lparr>IsValid := (ErrorCount q9 = 0)\<rparr>\<rparr>, h9)"
    unfolding normalizeAdsRecord_def make_map_def Let_def prod.case s1 s2 s3 s4 s5 s6 s7 s8 s9 ..
  with assms have n: "n =
       \<lparr>NormalizedAdsRecord.Date = v1,
        NormalizedAdsRecord.CampaignID = v2,
        NormalizedAdsRecord.Channel = v3,
        NormalizedAdsRecord.Clicks = v4,
        NormalizedAdsRecord.Impressions = v5,
        NormalizedAdsRecord.Cost = v6,
        NormalizedAdsRecord.UTMCampaign = v7,
        NormalizedAdsRecord.UTMSource = v8,
        NormalizedAdsRecord.UTMMedium = v9,
        NormalizedAdsRecord.UTMKey = generateUTMKey v7 v8 v9,
        NormalizedAdsRecord.Quality = q9\<lparr>IsValid := (ErrorCount q9 = 0)\<rparr>\<rparr>"
    and h': "h' = h9"
    by auto
  from s7 have v7: "v7 = (if TrimSpace (AdsRecord.UTMCampaign record) = [] then ''unknown''
                          else AdsRecord.UTMCampaign record)"
    by (auto simp add: validateUTMCampaign_def split: if_splits)
  from s8 have v8: "v8 = (case AdsRecord.UTMSource record of None \<Rightarrow> ''unknown''
                | Some s \<Rightarrow> if TrimSpace s = [] then ''unknown'' else TrimSpace s)"
    by (auto simp add: validateUTMSource_def split: if_splits option.splits)
  from s9 have v9: "v9 = (case AdsRecord.UTMMedium record of None \<Rightarrow> ''unknown''
                | Some s \<Rightarrow> if TrimSpace s = [] then ''unknown'' else TrimSpace s)"
    by (auto simp add: validateUTMMedium_def split: if_splits option.splits)
  have vals: "NormalizedAdsRecord.UTMCampaign n = v7" "NormalizedAdsRecord.UTMSource n = v8"
    "NormalizedAdsRecord.UTMMedium n = v9"
    "NormalizedAdsRecord.UTMKey n = generateUTMKey v7 v8 v9"
    "NormalizedAdsRecord.Quality n = q9\<lparr>IsValid := (ErrorCount q9 = 0)\<rparr>"
    by (simp_all add: n)
  from p9 show ?thesis
    unfolding mk vals h' using v7 v8 v9 by blast
qed

lemma normalizeCRMRecord_progress:
  assumes "normalizeCRMRecord t parse i record h = (n, h')"
  shows "\<exists>q. progress (snd (make_map h)) (next_addr h) (''crm_'' @ show_int (int i))
               [''opportunity_id'', ''contact_email'', ''stage'', ''amount'', ''created_at'',
                ''utm_campaign'', ''utm_source'', ''utm_medium''] q h' \<and>
             NormalizedCRMRecord.Quality n = q\<lparr>IsValid := (ErrorCount q = 0)\<rparr> \<and>
             NormalizedCRMRecord.OpportunityID n =
               (if TrimSpace (CRMRecord.OpportunityID record) = [] then ''unknown''
                else CRMRecord.OpportunityID record)"
proof -
  let ?a = "next_addr h"
  let ?h0 = "h\<lparr>tables := (tables h)(next_addr h := []), next_addr := Suc (next_addr h)\<rparr>"
  let ?rid = "''crm_'' @ show_int (int i)"
  let ?q0 = "\<lparr>RecordID = ?rid, IsValid = True, FieldErrors = ?a, ErrorCount = 0\<rparr>"
  have mk: "snd (make_map h) = ?h0" by (simp add: make_map_def)
  have p0: "progress ?h0 ?a ?rid [] ?q0 ?h0"
    using make_map_progress [of h ?rid] unfolding mk .
  obtain v1 q1 h1 where s1:
    "validateOpportunityID (CRMRecord.OpportunityID record) ''opportunity_id'' ?q0 ?h0 =
       (v1, q1, h1)"
    by (rule prod_cases3)
  obtain v2 q2 h2 where s2:
    "validateEmail t (CRMRecord.ContactEmail record) ''contact_email'' q1 h1 = (v2, q2, h2)"
    by (rule prod_cases3)
  obtain v3 q3 h3 where s3:
    "validateStage (CRMRecord.Stage record) ''stage'' q2 h2 = (v3, q3, h3)"
    by (rule prod_cases3)
  obtain v4 q4 h4 where s4:
    "validateAmount (CRMRecord.Amount record) ''amount'' q3 h3 = (v4, q4, h4)"
    by (rule prod_cases3)
  obtain v5 q5 h5 where s5:
    "validateAndParseDateTime parse (CRMRecord.CreatedAt record) ''created_at'' q4 h4 =
       (v5, q5, h5)"
    by (rule prod_cases3)
  obtain v6 q6 h6 where s6:
    "validateUTMCampaign (CRMRecord.UTMCampaign record) ''utm_campaign'' q5 h5 = (v6, q6, h6)"
    by (rule prod_cases3)
  obtain v7 q7 h7 where s7:
    "validateUTMSource (CRMRecord.UTMSource record) ''utm_source'' q6 h6 = (v7, q7, h7)"
    by (rule prod_cases3)
  obtain v8 q8 h8 where s8:
    "validateUTMMedium (CRMRecord.UTMMedium record) ''utm_medium'' q7 h7 = (v8, q8, h8)"
    by (rule prod_cases3)
  from validateOpportunityID_progress [OF s1 p0]
  have p1: "progress ?h0 ?a ?rid [''opportunity_id''] q1 h1" by simp
  from validateEmail_progress [OF s2 p1]
  have p2: "progress ?h0 ?a ?rid [''opportunity_id'', ''contact_email''] q2 h2" by simp
  from validateStage_progress [OF s3 p2]
  have p3: "progress ?h0 ?a ?rid [''opportunity_id'', ''contact_email'', ''stage''] q3 h3"
    by simp
  from validateAmount_progress [OF s4 p3]
  have p4: "progress ?h0 ?a ?rid
      [''opportunity_id'', ''contact_email'', ''stage'', ''amount''] q4 h4"
    by simp
  from validateAndParseDateTime_progress [OF s5 p4]
  have p5: "progress ?h0 ?a ?rid
      [''opportunity_id'', ''contact_email'', ''stage'', ''amount'', ''created_at''] q5 h5"
    by simp
  from validateUTMCampaign_progress [OF s6 p5]
  have p6: "progress ?h0 ?a ?rid
      [''opportunity_id'', ''contact_email'', ''stage'', ''amount'', ''created_at'',
       ''utm_campaign''] q6 h6"
    by simp
  from validateUTMSource_progress [OF s7 p6]
  have p7: "progress ?h0 ?a ?rid
      [''opportunity_id'', ''contact_email'', ''stage'', ''amount'', ''created_at'',
       ''utm_campaign'', ''utm_source''] q7 h7"
    by simp
  from validateUTMMedium_progress [OF s8 p7]
  have p8: "progress ?h0 ?a ?rid
      [''opportunity_id'', ''contact_email'', ''stage'', ''amount'', ''created_at'',
       ''utm_campaign'', ''utm_source'', ''utm_medium''] q8 h8"
    by simp
  have "normalizeCRMRecord t parse i record h =
      (\<lparr>NormalizedCRMRecord.OpportunityID = v1,
        NormalizedCRMRecord.ContactEmail = v2,
        NormalizedCRMRecord.Stage = v3,
        NormalizedCRMRecord.Amount = v4,
        NormalizedCRMRecord.CreatedAt = v5,
        NormalizedCRMRecord.UTMCampaign = v6,
        NormalizedCRMRecord.UTMSource = v7,
        NormalizedCRMRecord.UTMMedium = v8,
        NormalizedCRMRecord.UTMKey = generateUTMKey v6 v7 v8,
        NormalizedCRMRecord.Quality = q8\<lparr>IsValid := (ErrorCount q8 = 0)\<rparr>\<rparr>, h8)"
    unfolding normalizeCRMRecord_def make_map_def Let_def prod.case s1 s2 s3 s4 s5 s6 s7 s8 ..
  with assms have n: "n =
       \<lparr>NormalizedCRMRecord.OpportunityID = v1,
        NormalizedCRMRecord.ContactEmail = v2,
        NormalizedCRMRecord.Stage = v3,
        NormalizedCRMRecord.Amount = v4,
        NormalizedCRMRecord.CreatedAt = v5,
        NormalizedCRMRecord.UTMCampaign = v6,
        NormalizedCRMRecord.UTMSource = v7,
        NormalizedCRMRecord.UTMMedium = v8,
        NormalizedCRMRecord.UTMKey = generateUTMKey v6 v7 v8,
        NormalizedCRMRecord.Quality = q8\<lparr>IsValid := (ErrorCount q8 = 0)\<rparr>\<rparr>"
    and h': "h' = h8"
    by auto
  from s1 have v1: "v1 = (if TrimSpace (CRMRecord.OpportunityID record) = [] then ''unknown''
                          else CRMRecord.OpportunityID record)"
    by (auto simp add: validateOpportunityID_def split: if_splits)
  have vals: "NormalizedCRMRecord.OpportunityID n = v1"
    "NormalizedCRMRecord.Quality n = q8\<lparr>IsValid := (ErrorCount q8 = 0)\<rparr>"
    by (simp_all add: n)
  from p8 show ?thesis
    unfolding mk vals h' using v1 by blast
qed

lemma progress_next:
  assumes "progress (snd (make_map h)) (next_addr h) rid K q h'"
  shows "next_addr h' = Suc (next_addr h)" and "b \<noteq> next_addr h \<Longrightarrow> tables h' b = tables h b"
  using assms by (simp_all add: progress_def make_map_def)

lemma progress_recorded:
  "progress h0 a rid K q h \<Longrightarrow> recorded h K a rid (q\<lparr>IsValid := (ErrorCount q = 0)\<rparr>)"
  by (simp add: progress_def recorded_def)

lemma recorded_later:
  "recorded h K a rid q \<Longrightarrow> tables h' a = tables h a \<Longrightarrow> recorded h' K a rid q"
  by (simp add: recorded_def)

text \<open>
  The loop of the normalizer gives the records tables at consecutive fresh addresses; what
  it leaves of a record is not touched by the records that follow.
\<close>

lemma normalizeAds_loop_result:
  "normalizeAds_loop parse i records h = (ns, h') \<Longrightarrow>
   length ns = length records \<and> next_addr h' = next_addr h + length records \<and>
   (\<forall>b<next_addr h. tables h' b = tables h b) \<and>
   (\<forall>k<length records.
      recorded h'
        [''date'', ''campaign_id'', ''channel'', ''clicks'', ''impressions'', ''cost'',
         ''utm_campaign'', ''utm_source'', ''utm_medium'']
        (next_addr h + k) (''ads_'' @ show_int (int (i + k)))
        (NormalizedAdsRecord.Quality (ns ! k)))"
proof (induction records arbitrary: i h ns h')
  case Nil
  then show ?case by simp
next
  case (Cons r rs)
  let ?K = "[''date'', ''campaign_id'', ''channel'', ''clicks'', ''impressions'', ''cost'',
             ''utm_campaign'', ''utm_source'', ''utm_medium'']"
  obtain n h1 where one: "normalizeAdsRecord parse i r h = (n, h1)" by (rule prod.exhaust)
  obtain ns' h2 where rest: "normalizeAds_loop parse (Suc i) rs h1 = (ns', h2)"
    by (rule prod.exhaust)
  from Cons.prems one rest have ns: "ns = n # ns'" and h': "h' = h2" by simp_all
  from normalizeAdsRecord_progress [OF one] obtain q where
    p: "progress (snd (make_map h)) (next_addr h) (''ads_'' @ show_int (int i)) ?K q h1"
    and q: "NormalizedAdsRecord.Quality n = q\<lparr>IsValid := (ErrorCount q = 0)\<rparr>"
    by blast
  note nxt = progress_next [OF p]
  from Cons.IH [OF rest] have
    len: "length ns' = length rs" and nxt2: "next_addr h2 = next_addr h1 + length rs" and
    old: "\<And>b. b < next_addr h1 \<Longrightarrow> tables h2 b = tables h1 b" and
    rec: "\<And>k. k < length rs \<Longrightarrow>
      recorded h2 ?K (next_addr h1 + k) (''ads_'' @ show_int (int (Suc i + k)))
        (NormalizedAdsRecord.Quality (ns' ! k))"
    by simp_all
  have "tables h2 (next_addr h) = tables h1 (next_addr h)"
    using old [of "next_addr h"] nxt(1) by simp
  with progress_recorded [OF p]
  have first: "recorded h2 ?K (next_addr h) (''ads_'' @ show_int (int i))
      (NormalizedAdsRecord.Quality n)"
    unfolding q by (rule recorded_later)
  have "recorded h' ?K (next_addr h + k) (''ads_'' @ show_int (int (i + k)))
      (NormalizedAdsRecord.Quality (ns ! k))" if "k < length (r # rs)" for k
  proof (cases k)
    case 0
    with first show ?thesis by (simp add: ns h')
  next
    case (Suc k')
    with that rec [of k'] nxt(1) show ?thesis by (simp add: ns h')
  qed
  moreover have "tables h' b = tables h b" if "b < next_addr h" for b
    using that old [of b] nxt by (simp add: h')
  ultimately show ?case
    using len nxt2 nxt(1) by (simp add: ns h')
qed

lemma normalizeCRM_loop_result:
  "normalizeCRM_loop t parse i records h = (ns, h') \<Longrightarrow>
   length ns = length records \<and> next_addr h' = next_addr h + length records \<and>
   (\<forall>b<next_addr h. tables h' b = tables h b) \<and>
   (\<forall>k<length records.
      recorded h'
        [''opportunity_id'', ''contact_email'', ''stage'', ''amount'', ''created_at'',
         ''utm_campaign'', ''utm_source'', ''utm_medium'']
        (next_addr h + k) (''crm_'' @ show_int (int (i + k)))
        (NormalizedCRMRecord.Quality (ns ! k)) \<and>
      NormalizedCRMRecord.OpportunityID (ns ! k) =
        (if TrimSpace (CRMRecord.OpportunityID (records ! k)) = [] then ''unknown''
         else CRMRecord.OpportunityID (records ! k)))"
proof (induction records arbitrary: i h ns h')
  case Nil
  then show ?case by simp
next
  case (Cons r rs)
  let ?K = "[''opportunity_id'', ''contact_email'', ''stage'', ''amount'', ''created_at'',
             ''utm_campaign'', ''utm_source'', ''utm_medium'']"
  let ?id = "\<lambda>r. if TrimSpace (CRMRecord.OpportunityID r) = [] then ''unknown''
                   else CRMRecord.OpportunityID r"
  obtain n h1 where one: "normalizeCRMRecord t parse i r h = (n, h1)" by (rule prod.exhaust)
  obtain ns' h2 where rest: "normalizeCRM_loop t parse (Suc i) rs h1 = (ns', h2)"
    by (rule prod.exhaust)
  from Cons.prems one rest have ns: "ns = n # ns'" and h': "h' = h2" by simp_all
  from normalizeCRMRecord_progress [OF one] obtain q where
    p: "progress (snd (make_map h)) (next_addr h) (''crm_'' @ show_int (int i)) ?K q h1"
    and q: "NormalizedCRMRecord.Quality n = q\<lparr>IsValid := (ErrorCount q = 0)\<rparr>"
    and ident: "NormalizedCRMRecord.OpportunityID n = ?id r"
    by blast
  note nxt = progress_next [OF p]
  from Cons.IH [OF rest] have
    len: "length ns' = length rs" and nxt2: "next_addr h2 = next_addr h1 + length rs" and
    old: "\<And>b. b < next_addr h1 \<Longrightarrow> tables h2 b = tables h1 b" and
    rec: "\<And>k. k < length rs \<Longrightarrow>
      recorded h2 ?K (next_addr h1 + k) (''crm_'' @ show_int (int (Suc i + k)))
        (NormalizedCRMRecord.Quality (ns' ! k)) \<and>
      NormalizedCRMRecord.OpportunityID (ns' ! k) = ?id (rs ! k)"
    by simp_all
  have "tables h2 (next_addr h) = tables h1 (next_addr h)"
    using old [of "next_addr h"] nxt(1) by simp
  with progress_recorded [OF p]
  have first: "recorded h2 ?K (next_addr h) (''crm_'' @ show_int (int i))
      (NormalizedCRMRecord.Quality n)"
    unfolding q by (rule recorded_later)
  have "recorded h' ?K (next_addr h + k) (''crm_'' @ show_int (int (i + k)))
      (NormalizedCRMRecord.Quality (ns ! k)) \<and>
    NormalizedCRMRecord.OpportunityID (ns ! k) = ?id ((r # rs) ! k)"
    if "k < length (r # rs)" for k
  proof (cases k)
    case 0
    with first ident show ?thesis by (simp add: ns h')
  next
    case (Suc k')
    with that rec [of k'] nxt(1) show ?thesis by (simp add: ns h')
  qed
  moreover have "tables h' b = tables h b" if "b < next_addr h" for b
    using that old [of b] nxt by (simp add: h')
  ultimately show ?case
    using len nxt2 nxt(1) by (simp add: ns h')
qed

text \<open>
  The records that \<^verbatim>\<open>NormalizeAdsRecords\<close> and \<^verbatim>\<open>NormalizeCRMRecords\<close> return are records of
  the loop, with the tables the loop left: the deduplicator writes to the tables of the
  records it drops, and every record has a table of its own.
\<close>

lemma recorded_addr: "recorded h K a rid q \<Longrightarrow> FieldErrors q = a"
  by (simp add: recorded_def)

lemma distinct_addresses:
  assumes "length ns = n" and "\<And>k. k < n \<Longrightarrow> f (ns ! k) = (a::nat) + k"
  shows "distinct (map f ns)"
proof -
  have "map f ns = map (\<lambda>k. a + k) [0..<n]"
    using assms by (intro nth_equalityI) simp_all
  moreover have "distinct (map (\<lambda>k. a + k) [0..<n])"
    by (simp add: distinct_map inj_on_def)
  ultimately show ?thesis by simp
qed

lemma NormalizeAdsRecords_recorded:
  assumes "NormalizeAdsRecords parse records h = (out, hf)" and "r \<in> set out"
  shows "\<exists>k<length records.
           recorded hf
             [''date'', ''campaign_id'', ''channel'', ''clicks'', ''impressions'', ''cost'',
              ''utm_campaign'', ''utm_source'', ''utm_medium'']
             (next_addr h + k) (''ads_'' @ show_int (int k)) (NormalizedAdsRecord.Quality r)"
proof -
  let ?addr = "FieldErrors \<circ> NormalizedAdsRecord.Quality"
  obtain ns h1 where loop: "normalizeAds_loop parse 0 records h = (ns, h1)"
    by (rule prod.exhaust)
  with assms(1) have dedup: "deduplicateAdsRecords ns h1 = (out, hf)"
    by (simp add: NormalizeAdsRecords_def)
  note res = normalizeAds_loop_result [OF loop]
  from res have len: "length ns = length records" by simp
  have addr: "?addr (ns ! k) = next_addr h + k" if "k < length records" for k
    using res that by (auto dest: recorded_addr)
  have dist: "distinct (map ?addr ns)"
    using len addr by (rule distinct_addresses)
  from dedup have out: "out = fst (dedupAds_loop 0 Map.empty ns h1)"
    and hf: "hf = snd (dedupAds_loop 0 Map.empty ns h1)"
    by (simp_all add: deduplicateAdsRecords_def)
  from assms(2) have "r \<in> set ns"
    using first_occurrences_subset [of adsKey "{}" ns] by (auto simp: out dedupAds_loop_fst)
  then obtain k where k: "k < length records" "r = ns ! k"
    using len by (auto simp: in_set_conv_nth)
  from assms(2) have "tables hf (?addr r) = tables h1 (?addr r)"
    unfolding out hf comp_def by (rule dedupAds_loop_kept [OF dist, unfolded comp_def])
  with addr [OF k(1)] k(2) have "tables hf (next_addr h + k) = tables h1 (next_addr h + k)"
    by simp
  with res k show ?thesis
    by (auto intro: recorded_later)
qed

lemma NormalizeCRMRecords_recorded:
  assumes "NormalizeCRMRecords t parse records h = (out, hf)" and "r \<in> set out"
  shows "\<exists>k<length records.
           recorded hf
             [''opportunity_id'', ''contact_email'', ''stage'', ''amount'', ''created_at'',
              ''utm_campaign'', ''utm_source'', ''utm_medium'']
             (next_addr h + k) (''crm_'' @ show_int (int k)) (NormalizedCRMRecord.Quality r)"
proof -
  let ?addr = "FieldErrors \<circ> NormalizedCRMRecord.Quality"
  obtain ns h1 where loop: "normalizeCRM_loop t parse 0 records h = (ns, h1)"
    by (rule prod.exhaust)
  with assms(1) have dedup: "deduplicateCRMRecords ns h1 = (out, hf)"
    by (simp add: NormalizeCRMRecords_def)
  note res = normalizeCRM_loop_result [OF loop]
  from res have len: "length ns = length records" by simp
  have addr: "?addr (ns ! k) = next_addr h + k" if "k < length records" for k
    using res that by (auto dest: recorded_addr)
  have dist: "distinct (map ?addr ns)"
    using len addr by (rule distinct_addresses)
  from dedup have out: "out = fst (dedupCRM_loop 0 Map.empty ns h1)"
    and hf: "hf = snd (dedupCRM_loop 0 Map.empty ns h1)"
    by (simp_all add: deduplicateCRMRecords_def)
  from assms(2) have "r \<in> set ns"
    using first_occurrences_subset [of NormalizedCRMRecord.OpportunityID "{}" ns]
    by (auto simp: out dedupCRM_loop_fst)
  then obtain k where k: "k < length records" "r = ns ! k"
    using len by (auto simp: in_set_conv_nth)
  from assms(2) have "tables hf (?addr r) = tables h1 (?addr r)"
    unfolding out hf comp_def by (rule dedupCRM_loop_kept [OF dist, unfolded comp_def])
  with addr [OF k(1)] k(2) have "tables hf (next_addr h + k) = tables h1 (next_addr h + k)"
    by simp
  with res k show ?thesis
    by (auto intro: recorded_later)
qed


lemma markDuplicateCRM_counts:
  assumes "''duplicate'' \<notin> fst ` set (tables h (FieldErrors (NormalizedCRMRecord.Quality r)))"
    and "ErrorCount (NormalizedCRMRecord.Quality r) =
           int (invalid_entries (tables h (FieldErrors (NormalizedCRMRecord.Quality r))))"
    and "markDuplicateCRM n r h = (r', h')"
  shows "ErrorCount (NormalizedCRMRecord.Quality r') =
           int (invalid_entries (tables h' (FieldErrors (NormalizedCRMRecord.Quality r'))))"
  using assms(2,3) update_fresh [OF assms(1)]
  by (auto simp add: markDuplicateCRM_def Let_def map_assign_def invalid_entries_def)

lemma first_occurrences_hd:
  "xs \<noteq> [] \<Longrightarrow> first_occurrences key {} xs \<noteq> [] \<and> hd (first_occurrences key {} xs) = hd xs"
  by (cases xs) simp_all

lemma NormalizeAdsRecords_nonempty:
  assumes "records \<noteq> []"
  shows "fst (NormalizeAdsRecords parse records h) \<noteq> []"
proof -
  obtain ns h1 where loop: "normalizeAds_loop parse 0 records h = (ns, h1)"
    by (rule prod.exhaust)
  with normalizeAds_loop_result [OF loop] assms have "ns \<noteq> []" by auto
  with loop show ?thesis
    by (simp add: NormalizeAdsRecords_def deduplicateAdsRecords_fst first_occurrences_hd)
qed

lemma NormalizeCRMRecords_nonempty:
  assumes "records \<noteq> []"
  shows "fst (NormalizeCRMRecords t parse records h) \<noteq> []"
proof -
  obtain ns h1 where loop: "normalizeCRM_loop t parse 0 records h = (ns, h1)"
    by (rule prod.exhaust)
  with normalizeCRM_loop_result [OF loop] assms have "ns \<noteq> []" by auto
  with loop show ?thesis
    by (simp add: NormalizeCRMRecords_def deduplicateCRMRecords_fst first_occurrences_hd)
qed

text \<open>
  C5. For every record that \<^verbatim>\<open>NormalizeAdsRecords\<close> or \<^verbatim>\<open>NormalizeCRMRecords\<close> returns,
  \<^verbatim>\<open>is_valid\<close> is true if and only if \<^verbatim>\<open>error_count\<close> is 0; the records returned are those
  the deduplicator kept, which it does not change.
\<close>

theorem normalized_valid_iff_no_errors:
  "(\<forall>r \<in> set (fst (NormalizeAdsRecords parse ads h)).
      IsValid (NormalizedAdsRecord.Quality r) \<longleftrightarrow>
      ErrorCount (NormalizedAdsRecord.Quality r) = 0) \<and>
   (\<forall>r \<in> set (fst (NormalizeCRMRecords t parse crm h)).
      IsValid (NormalizedCRMRecord.Quality r) \<longleftrightarrow>
      ErrorCount (NormalizedCRMRecord.Quality r) = 0)"
proof (intro conjI ballI)
  fix r assume "r \<in> set (fst (NormalizeAdsRecords parse ads h))"
  with NormalizeAdsRecords_recorded [OF surjective_pairing]
  show "IsValid (NormalizedAdsRecord.Quality r) \<longleftrightarrow>
        ErrorCount (NormalizedAdsRecord.Quality r) = 0"
    unfolding recorded_def by blast
next
  fix r assume "r \<in> set (fst (NormalizeCRMRecords t parse crm h))"
  with NormalizeCRMRecords_recorded [OF surjective_pairing]
  show "IsValid (NormalizedCRMRecord.Quality r) \<longleftrightarrow>
        ErrorCount (NormalizedCRMRecord.Quality r) = 0"
    unfolding recorded_def by blast
qed

theorem normalized_valid_iff_no_errors_witness:
  "hd (fst (NormalizeAdsRecords sample_parse [raw_ads ''C1'' ''google_ads''] empty_heap))
     \<in> set (fst (NormalizeAdsRecords sample_parse [raw_ads ''C1'' ''google_ads''] empty_heap)) \<and>
   ErrorCount (NormalizedAdsRecord.Quality
     (hd (fst (NormalizeAdsRecords sample_parse [raw_ads ''C1'' ''google_ads''] empty_heap)))) = 1 \<and>
   \<not> IsValid (NormalizedAdsRecord.Quality
     (hd (fst (NormalizeAdsRecords sample_parse [raw_ads ''C1'' ''google_ads''] empty_heap)))) \<and>
   hd (fst (NormalizeCRMRecords New sample_parse [raw_crm ''O1'' ''a@b.cc''] empty_heap))
     \<in> set (fst (NormalizeCRMRecords New sample_parse [raw_crm ''O1'' ''a@b.cc''] empty_heap)) \<and>
   ErrorCount (NormalizedCRMRecord.Quality
     (hd (fst (NormalizeCRMRecords New sample_parse [raw_crm ''O1'' ''a@b.cc''] empty_heap)))) = 0 \<and>
   IsValid (NormalizedCRMRecord.Quality
     (hd (fst (NormalizeCRMRecords New sample_parse [raw_crm ''O1'' ''a@b.cc''] empty_heap))))"
proof -
  let ?ads = "fst (NormalizeAdsRecords sample_parse [raw_ads ''C1'' ''google_ads''] empty_heap)"
  let ?crm = "fst (NormalizeCRMRecords New sample_parse [raw_crm ''O1'' ''a@b.cc''] empty_heap)"
  note iff = normalized_valid_iff_no_errors
    [of sample_parse "[raw_ads ''C1'' ''google_ads'']" empty_heap New "[raw_crm ''O1'' ''a@b.cc'']"]
  have ads: "hd ?ads \<in> set ?ads"
    by (rule hd_in_set) (simp add: NormalizeAdsRecords_nonempty)
  have crm: "hd ?crm \<in> set ?crm"
    by (rule hd_in_set) (simp add: NormalizeCRMRecords_nonempty)
  have ads_count: "ErrorCount (NormalizedAdsRecord.Quality (hd ?ads)) = 1"
    by code_simp
  have crm_count: "ErrorCount (NormalizedCRMRecord.Quality (hd ?crm)) = 0"
    by code_simp
  from iff ads ads_count have "\<not> IsValid (NormalizedAdsRecord.Quality (hd ?ads))"
    by auto
  moreover from iff crm crm_count have "IsValid (NormalizedCRMRecord.Quality (hd ?crm))"
    by auto
  ultimately show ?thesis
    using ads crm ads_count crm_count by blast
qed



lemma TrimSpace_empty: "TrimSpace [] = []"
  by code_simp

lemma TrimSpace_unknown: "TrimSpace ''unknown'' = ''unknown''"
  by code_simp

text \<open>
  C7. The UTM key of a normalized advertising record is its campaign, \<^verbatim>\<open>"|"\<close>, its source,
  \<^verbatim>\<open>"|"\<close> and its medium, none of the three is empty, and each of them is \<^verbatim>\<open>"unknown"\<close> when
  the raw value is missing or blank; so the key is not empty and has no empty segment.
\<close>

theorem utm_key_segments:
  assumes "normalizeAdsRecord parse i record h = (n, h')"
  shows "NormalizedAdsRecord.UTMKey n =
           NormalizedAdsRecord.UTMCampaign n @ ''|'' @ NormalizedAdsRecord.UTMSource n @ ''|'' @
           NormalizedAdsRecord.UTMMedium n \<and>
         NormalizedAdsRecord.UTMCampaign n \<noteq> [] \<and> NormalizedAdsRecord.UTMSource n \<noteq> [] \<and>
         NormalizedAdsRecord.UTMMedium n \<noteq> [] \<and> NormalizedAdsRecord.UTMKey n \<noteq> [] \<and>
         (TrimSpace (AdsRecord.UTMCampaign record) = [] \<longrightarrow>
            NormalizedAdsRecord.UTMCampaign n = ''unknown'') \<and>
         ((AdsRecord.UTMSource record = None \<or>
           (\<exists>s. AdsRecord.UTMSource record = Some s \<and> TrimSpace s = [])) \<longrightarrow>
            NormalizedAdsRecord.UTMSource n = ''unknown'') \<and>
         ((AdsRecord.UTMMedium record = None \<or>
           (\<exists>s. AdsRecord.UTMMedium record = Some s \<and> TrimSpace s = [])) \<longrightarrow>
            NormalizedAdsRecord.UTMMedium n = ''unknown'')"
proof -
  from normalizeAdsRecord_progress [OF assms] have
    campaign: "NormalizedAdsRecord.UTMCampaign n =
       (if TrimSpace (AdsRecord.UTMCampaign record) = [] then ''unknown''
        else AdsRecord.UTMCampaign record)" and
    source: "NormalizedAdsRecord.UTMSource n =
       (case AdsRecord.UTMSource record of None \<Rightarrow> ''unknown''
        | Some s \<Rightarrow> if TrimSpace s = [] then ''unknown'' else TrimSpace s)" and
    medium: "NormalizedAdsRecord.UTMMedium n =
       (case AdsRecord.UTMMedium record of None \<Rightarrow> ''unknown''
        | Some s \<Rightarrow> if TrimSpace s = [] then ''unknown'' else TrimSpace s)" and
    key: "NormalizedAdsRecord.UTMKey n =
       generateUTMKey (NormalizedAdsRecord.UTMCampaign n) (NormalizedAdsRecord.UTMSource n)
         (NormalizedAdsRecord.UTMMedium n)"
    by blast+
  have trimmed: "TrimSpace (NormalizedAdsRecord.UTMCampaign n) \<noteq> []"
    unfolding campaign by (simp add: TrimSpace_unknown)
  then have c: "NormalizedAdsRecord.UTMCampaign n \<noteq> []"
    using TrimSpace_empty by auto
  have s: "NormalizedAdsRecord.UTMSource n \<noteq> []"
    unfolding source by (simp split: option.splits)
  have m: "NormalizedAdsRecord.UTMMedium n \<noteq> []"
    unfolding medium by (simp split: option.splits)
  from trimmed have k: "NormalizedAdsRecord.UTMKey n =
      NormalizedAdsRecord.UTMCampaign n @ ''|'' @ NormalizedAdsRecord.UTMSource n @ ''|'' @
      NormalizedAdsRecord.UTMMedium n"
    unfolding key by (simp add: generateUTMKey_def)
  from c k have "NormalizedAdsRecord.UTMKey n \<noteq> []" by simp
  moreover have "TrimSpace (AdsRecord.UTMCampaign record) = [] \<longrightarrow>
      NormalizedAdsRecord.UTMCampaign n = ''unknown''"
    unfolding campaign by simp
  moreover have "(AdsRecord.UTMSource record = None \<or>
      (\<exists>s. AdsRecord.UTMSource record = Some s \<and> TrimSpace s = [])) \<longrightarrow>
      NormalizedAdsRecord.UTMSource n = ''unknown''"
    unfolding source by auto
  moreover have "(AdsRecord.UTMMedium record = None \<or>
      (\<exists>s. AdsRecord.UTMMedium record = Some s \<and> TrimSpace s = [])) \<longrightarrow>
      NormalizedAdsRecord.UTMMedium n = ''unknown''"
    unfolding medium by auto
  ultimately show ?thesis using c s m k by blast
qed

theorem utm_key_segments_witness:
  "normalizeAdsRecord sample_parse 0 (raw_ads ''C1'' ''google_ads'') empty_heap =
     (fst (normalizeAdsRecord sample_parse 0 (raw_ads ''C1'' ''google_ads'') empty_heap),
      snd (normalizeAdsRecord sample_parse 0 (raw_ads ''C1'' ''google_ads'') empty_heap)) \<and>
   AdsRecord.UTMMedium (raw_ads ''C1'' ''google_ads'') = None \<and>
   NormalizedAdsRecord.UTMMedium
     (fst (normalizeAdsRecord sample_parse 0 (raw_ads ''C1'' ''google_ads'') empty_heap)) =
     ''unknown'' \<and>
   NormalizedAdsRecord.UTMKey
     (fst (normalizeAdsRecord sample_parse 0 (raw_ads ''C1'' ''google_ads'') empty_heap)) =
     ''summer|google|unknown''"
proof -
  let ?n = "fst (normalizeAdsRecord sample_parse 0 (raw_ads ''C1'' ''google_ads'') empty_heap)"
  have run: "normalizeAdsRecord sample_parse 0 (raw_ads ''C1'' ''google_ads'') empty_heap =
      (?n, snd (normalizeAdsRecord sample_parse 0 (raw_ads ''C1'' ''google_ads'') empty_heap))"
    by simp
  have none: "AdsRecord.UTMMedium (raw_ads ''C1'' ''google_ads'') = None"
    by (simp add: raw_ads_def)
  note seg = utm_key_segments [OF run]
  from seg none have medium: "NormalizedAdsRecord.UTMMedium ?n = ''unknown''" by blast
  have campaign: "NormalizedAdsRecord.UTMCampaign ?n = ''summer''" by code_simp
  have source: "NormalizedAdsRecord.UTMSource ?n = ''google''" by code_simp
  from seg have "NormalizedAdsRecord.UTMKey ?n =
      NormalizedAdsRecord.UTMCampaign ?n @ ''|'' @ NormalizedAdsRecord.UTMSource ?n @ ''|'' @
      NormalizedAdsRecord.UTMMedium ?n"
    by blast
  then have "NormalizedAdsRecord.UTMKey ?n = ''summer|google|unknown''"
    unfolding medium campaign source by simp
  with run none medium show ?thesis by blast
qed

lemma distinct_keys_at_most_one:
  "distinct (map f xs) \<Longrightarrow> length (filter (\<lambda>x. f x = c) xs) \<le> 1"
proof (induction xs)
  case Nil
  then show ?case by simp
next
  case (Cons x xs)
  show ?case
  proof (cases "f x = c")
    case True
    with Cons.prems have "filter (\<lambda>x. f x = c) xs = []"
      by (auto simp: filter_empty_conv image_iff)
    with True show ?thesis by simp
  next
    case False
    with Cons show ?thesis by simp
  qed
qed

text \<open>
  C10. A CRM record whose opportunity id is empty or white space gets the identifier
  \<^verbatim>\<open>"unknown"\<close> from the normalizer, so these records share one business key. Of the
  records with the key \<^verbatim>\<open>"unknown"\<close> at most one is returned; a record with a blank id that
  comes after another one is dropped, and the first record whose identifier is
  \<^verbatim>\<open>"unknown"\<close> is the one that is returned. (The normalized records are pairwise different,
  each has a table of its own, so that a record which is not in the output was dropped.)
\<close>

theorem blank_opportunity_ids:
  assumes "normalizeCRM_loop t parse 0 records h = (ns, h1)"
    and "deduplicateCRMRecords ns h1 = (out, hf)"
  shows "NormalizeCRMRecords t parse records h = (out, hf) \<and>
         length ns = length records \<and> distinct ns \<and>
         (\<forall>k<length records. TrimSpace (CRMRecord.OpportunityID (records ! k)) = [] \<longrightarrow>
            NormalizedCRMRecord.OpportunityID (ns ! k) = ''unknown'') \<and>
         length (filter (\<lambda>r. NormalizedCRMRecord.OpportunityID r = ''unknown'') out) \<le> 1 \<and>
         (\<forall>i j. i < j \<and> j < length records \<and>
            TrimSpace (CRMRecord.OpportunityID (records ! i)) = [] \<and>
            TrimSpace (CRMRecord.OpportunityID (records ! j)) = [] \<longrightarrow> ns ! j \<notin> set out) \<and>
         (\<forall>i<length records.
            NormalizedCRMRecord.OpportunityID (ns ! i) = ''unknown'' \<and>
            (\<forall>j<i. NormalizedCRMRecord.OpportunityID (ns ! j) \<noteq> ''unknown'') \<longrightarrow>
            ns ! i \<in> set out)"
proof -
  let ?id = NormalizedCRMRecord.OpportunityID
  let ?addr = "FieldErrors \<circ> NormalizedCRMRecord.Quality"
  let ?first = "\<lambda>i. \<forall>j<i. ?id (ns ! j) \<noteq> ?id (ns ! i)"
  note res = normalizeCRM_loop_result [OF assms(1)]
  from res have len: "length ns = length records" by simp
  have addr: "?addr (ns ! k) = next_addr h + k" if "k < length records" for k
    using res that by (auto dest: recorded_addr)
  have "distinct (map ?addr ns)"
    using len addr by (rule distinct_addresses)
  then have dist: "distinct ns" by (rule distinct_map [THEN iffD1, THEN conjunct1])
  have unknown: "?id (ns ! k) = ''unknown''"
    if "k < length records" "TrimSpace (CRMRecord.OpportunityID (records ! k)) = []" for k
    using res that by simp
  from assms(2) have out: "out = first_occurrences ?id {} ns"
    using deduplicateCRMRecords_fst [of ns h1] by simp
  then have out_index: "out = map (nth ns) (filter ?first [0..<length ns])"
    by (simp add: first_occurrences_index)
  have kept_iff: "ns ! k \<in> set out \<longleftrightarrow> ?first k" if "k < length ns" for k
  proof
    assume "ns ! k \<in> set out"
    then obtain k' where k': "k' < length ns" "?first k'" "ns ! k = ns ! k'"
      unfolding out_index by auto
    with dist that have "k = k'" by (simp add: nth_eq_iff_index_eq)
    with k'(2) show "?first k" by simp
  next
    assume "?first k"
    with that show "ns ! k \<in> set out" unfolding out_index by auto
  qed
  have one: "length (filter (\<lambda>r. ?id r = ''unknown'') out) \<le> 1"
    unfolding out by (rule distinct_keys_at_most_one) (rule first_occurrences_distinct)
  have later: "ns ! j \<notin> set out"
    if "i < j" "j < length records"
      "TrimSpace (CRMRecord.OpportunityID (records ! i)) = []"
      "TrimSpace (CRMRecord.OpportunityID (records ! j)) = []" for i j
  proof -
    from that unknown [of i] unknown [of j] have "?id (ns ! i) = ?id (ns ! j)" by simp
    with that(1) have "\<not> ?first j" by auto
    with kept_iff [of j] that(2) len show ?thesis by simp
  qed
  have earliest: "ns ! i \<in> set out"
    if "i < length records" "?id (ns ! i) = ''unknown''" "\<forall>j<i. ?id (ns ! j) \<noteq> ''unknown''" for i
    using kept_iff [of i] that len by simp
  from assms have "NormalizeCRMRecords t parse records h = (out, hf)"
    by (simp add: NormalizeCRMRecords_def)
  with len dist unknown one later earliest show ?thesis by blast
qed

theorem blank_opportunity_ids_witness:
  "normalizeCRM_loop New sample_parse 0 [raw_crm '' '' ''a@b.cc'', raw_crm [] ''c@d.org'']
       empty_heap =
     (fst (normalizeCRM_loop New sample_parse 0
             [raw_crm '' '' ''a@b.cc'', raw_crm [] ''c@d.org''] empty_heap),
      snd (normalizeCRM_loop New sample_parse 0
             [raw_crm '' '' ''a@b.cc'', raw_crm [] ''c@d.org''] empty_heap)) \<and>
   (0::nat) < 1 \<and> 1 < length [raw_crm '' '' ''a@b.cc'', raw_crm [] ''c@d.org''] \<and>
   TrimSpace (CRMRecord.OpportunityID
     ([raw_crm '' '' ''a@b.cc'', raw_crm [] ''c@d.org''] ! 0)) = [] \<and>
   TrimSpace (CRMRecord.OpportunityID
     ([raw_crm '' '' ''a@b.cc'', raw_crm [] ''c@d.org''] ! 1)) = [] \<and>
   fst (normalizeCRM_loop New sample_parse 0
          [raw_crm '' '' ''a@b.cc'', raw_crm [] ''c@d.org''] empty_heap) ! 1
     \<notin> set (fst (NormalizeCRMRecords New sample_parse
                    [raw_crm '' '' ''a@b.cc'', raw_crm [] ''c@d.org''] empty_heap)) \<and>
   fst (normalizeCRM_loop New sample_parse 0
          [raw_crm '' '' ''a@b.cc'', raw_crm [] ''c@d.org''] empty_heap) ! 0
     \<in> set (fst (NormalizeCRMRecords New sample_parse
                    [raw_crm '' '' ''a@b.cc'', raw_crm [] ''c@d.org''] empty_heap))"
proof -
  let ?records = "[raw_crm '' '' ''a@b.cc'', raw_crm [] ''c@d.org'']"
  let ?loop = "normalizeCRM_loop New sample_parse 0 ?records empty_heap"
  let ?dedup = "deduplicateCRMRecords (fst ?loop) (snd ?loop)"
  have loop: "?loop = (fst ?loop, snd ?loop)" by simp
  have dedup: "?dedup = (fst ?dedup, snd ?dedup)" by simp
  have blank0: "TrimSpace (CRMRecord.OpportunityID (?records ! 0)) = []"
    by code_simp
  have blank1: "TrimSpace (CRMRecord.OpportunityID (?records ! 1)) = []"
    by code_simp
  note blank = blank_opportunity_ids [OF loop dedup]
  from blank have run: "NormalizeCRMRecords New sample_parse ?records empty_heap =
      (fst ?dedup, snd ?dedup)"
    by blast
  from blank have "\<forall>i j. i < j \<and> j < length ?records \<and>
      TrimSpace (CRMRecord.OpportunityID (?records ! i)) = [] \<and>
      TrimSpace (CRMRecord.OpportunityID (?records ! j)) = [] \<longrightarrow>
      fst ?loop ! j \<notin> set (fst ?dedup)"
    by blast
  with blank0 blank1 have dropped: "fst ?loop ! 1 \<notin> set (fst ?dedup)"
    by (metis One_nat_def length_Cons list.size(3) lessI zero_less_one)
  from blank have unknown: "\<forall>k<length ?records.
      TrimSpace (CRMRecord.OpportunityID (?records ! k)) = [] \<longrightarrow>
      NormalizedCRMRecord.OpportunityID (fst ?loop ! k) = ''unknown''"
    by blast
  with blank0 have first: "NormalizedCRMRecord.OpportunityID (fst ?loop ! 0) = ''unknown''"
    by simp
  from blank have "\<forall>i<length ?records.
      NormalizedCRMRecord.OpportunityID (fst ?loop ! i) = ''unknown'' \<and>
      (\<forall>j<i. NormalizedCRMRecord.OpportunityID (fst ?loop ! j) \<noteq> ''unknown'') \<longrightarrow>
      fst ?loop ! i \<in> set (fst ?dedup)"
    by blast
  with first have kept: "fst ?loop ! 0 \<in> set (fst ?dedup)" by simp
  from loop blank0 blank1 dropped kept show ?thesis
    unfolding run by simp
qed

end
